theory Spec2Isabelle
  imports Main "HOL-Library.AList"
begin

section \<open>Shared protocol types\<close>

text \<open>
  The repository is a TypeScript library with two classes, \<open>Gateway\<close> (src/gateway.ts) and
  \<open>Shard\<close> (src/shard.ts). Both are single-threaded actors; every method is modelled as a
  function from the object's private fields to the updated fields, the value returned (or the
  error thrown) and the list of calls it makes to the outside (socket sends, requests to other
  actors), in the order the source makes them. A remote call is recorded when it is issued; its
  answer is never inspected by the source and is not part of the model.

  Identifiers are JavaScript strings. Live counts are JavaScript numbers that only ever hold
  whole numbers (they start at 1 and move by 1), and the limit of a gateway is the number of
  connections a shard may hold, a whole number too: both are \<open>int\<close>.
\<close>

type_synonym ReqID = string
type_synonym ShardID = string
type_synonym LiveCount = int

text \<open>
  Modelled from the spec: the files \<open>internal/routes\<close> and \<open>internal/headers\<close> are not part
  of the sources. The spec names the reserved control routes CLOSE, NEIGHBOR, BROADCAST and
  WHISPER and the metadata GatewayID, ClientID, ShardID, NeighborID, TargetID and IsEmpty; they
  are taken to be pairwise distinct. \<open>Path p\<close> is any other pathname and \<open>Header n\<close> any other
  header, such as the three WebSocket headers that \<open>Shard.connect\<close> reads by their literal
  names.
\<close>

datatype route = CLOSE | NEIGHBOR | BROADCAST | WHISPER | Path string

datatype header = GATEWAYID | CLIENTID | SHARDID | NEIGHBORID | TARGETID | ISEMPTY | Header string

record request =
  rmethod :: string
  pathname :: route
  headers :: "(header \<times> string) list"
  body :: string

text \<open>\<open>headers.get(name)\<close> and \<open>headers.set(name, value)\<close>.\<close>

definition hget :: "request \<Rightarrow> header \<Rightarrow> string option" where
  "hget req h = map_of (headers req) h"

definition hset :: "header \<Rightarrow> string \<Rightarrow> request \<Rightarrow> request" where
  "hset h v req = req\<lparr>headers := AList.update h v (headers req)\<rparr>"

text \<open>
  A thrown JavaScript \<open>Error\<close>: its message and its stack. \<open>new Error(m)\<close> made by the library
  itself gets a stack from the engine; V8 starts it with \<open>Error: m\<close>, and the frames after that
  line are not modelled.
\<close>

datatype js_error = Error (message: string) (stack: "string option")

definition new_Error :: "string \<Rightarrow> js_error" where
  "new_Error m = Error m (Some (''Error: '' @ m))"

text \<open>
  A \<open>Response\<close>: its status, its body and the client end of a socket pair when it switches
  protocols. \<open>DefaultText\<close> is the body that \<open>utils.abort\<close> gives when it is called without a
  message.
\<close>

datatype content = NoContent | Content string | DefaultText

record response =
  status :: int
  content :: content
  webSocket :: "nat option"

text \<open>
  Modelled from the spec: \<open>utils.abort(code, message?)\<close> of \<open>internal/utils\<close>, which is not in
  the sources. It builds the client-visible error response with the given status code that
  carries the diagnostic text.
\<close>

definition abort :: "int \<Rightarrow> string option \<Rightarrow> response" where
  "abort code msg =
     \<lparr>status = code,
      content = (case msg of None \<Rightarrow> DefaultText | Some m \<Rightarrow> Content m),
      webSocket = None\<rparr>"

text \<open>The identifiers \<open>utils.validate\<close> returns: \<open>{ rid, sid, gid, tid }\<close>.\<close>

record ids =
  rid :: ReqID
  sid :: ShardID
  gid :: string
  tid :: "string option"

text \<open>
  \<open>utils.validate(req, uid?)\<close> is in \<open>internal/utils\<close> too. Every function that calls it takes
  it as its first parameter \<open>V\<close>: it returns the identifiers or throws.
\<close>

type_synonym validator = "request \<Rightarrow> string option \<Rightarrow> js_error + ids"

text \<open>
  Modelled from the spec: a validator for the concrete runs below. \<open>internal/utils\<close> is missing;
  the spec says that validation checks that the routing identifiers (gateway id, client id) are
  present and that the receiver is the intended recipient, that the sender of an introduction is
  carried as NeighborID, and the target of a whisper as TargetID.
\<close>

definition validate :: validator where
  "validate req uid =
     (case hget req SHARDID of
        None \<Rightarrow> Inl (new_Error ''Missing: Shard ID'')
      | Some s \<Rightarrow>
          if (case uid of None \<Rightarrow> False | Some u \<Rightarrow> s \<noteq> u)
          then Inl (new_Error ''Mismatch: Shard ID'')
          else (case hget req GATEWAYID of
                  None \<Rightarrow> Inl (new_Error ''Missing: Gateway ID'')
                | Some g \<Rightarrow>
                    (case (case hget req CLIENTID of
                             None \<Rightarrow> hget req NEIGHBORID
                           | Some r \<Rightarrow> Some r) of
                       None \<Rightarrow> Inl (new_Error ''Missing: Client ID'')
                     | Some r \<Rightarrow> Inr \<lparr>rid = r, sid = s, gid = g, tid = hget req TARGETID\<rparr>)))"

text \<open>
  What a method does to the outside, in the order of the calls: \<open>ShardFetch sid req\<close> is
  \<open>stub.fetch\<close> on the shard \<open>sid\<close>, \<open>GatewayFetch gid req\<close> the same on the gateway \<open>gid\<close>;
  \<open>Accept\<close>, \<open>Send\<close> and \<open>SocketClose\<close> are \<open>accept()\<close>, \<open>send(msg)\<close> and \<open>close()\<close> on a
  server socket, which is named by a number.
\<close>

datatype event =
    ShardFetch ShardID request
  | GatewayFetch string request
  | Accept nat
  | Send nat string
  | SocketClose nat

text \<open>
  The operand of \<open>a || b\<close> on values of type \<open>string | undefined\<close>: the empty string is falsy as
  \<open>undefined\<close> is.
\<close>

definition js_or :: "string option \<Rightarrow> string option \<Rightarrow> string option" where
  "js_or a b = (case a of None \<Rightarrow> b | Some x \<Rightarrow> if x = [] then b else Some x)"

definition first :: "'a list \<Rightarrow> 'a option" where
  "first xs = (case xs of [] \<Rightarrow> None | x # _ \<Rightarrow> Some x)"

section \<open>Gateway (src/gateway.ts)\<close>

text \<open>
  The private fields of the class. \<open>#kids\<close> is a \<open>Map\<close> that \<open>#sort\<close> and \<open>#welcome\<close> iterate,
  so it is an association list in insertion order with distinct keys: \<open>Map.set\<close> is
  \<open>AList.update\<close> (an existing key keeps its place, a new key goes last). \<open>#mapping\<close> is never
  iterated and is a map.
\<close>

record gateway =
  uid :: string
  limit :: int
  mapping :: "ReqID \<rightharpoonup> ShardID"
  kids :: "(ShardID \<times> LiveCount) list"
  sorted_list :: "ShardID list"
  current :: "ShardID option"

text \<open>The constructor.\<close>

definition new_gateway :: "string \<Rightarrow> int \<Rightarrow> gateway" where
  "new_gateway u l =
     \<lparr>uid = u, limit = l, mapping = Map.empty, kids = [], sorted_list = [], current = None\<rparr>"

text \<open>
  The loop of \<open>#sort\<close> over the sorted tuples: \<open>list\<close> collects the ids of the buckets under
  the limit, \<open>bucket\<close> keeps the first of them.
\<close>

fun sort_loop ::
  "int \<Rightarrow> (ShardID \<times> LiveCount) list \<Rightarrow> ShardID list \<Rightarrow> (ShardID \<times> LiveCount) option \<Rightarrow>
   ShardID list \<times> (ShardID \<times> LiveCount) option" where
  "sort_loop l [] list bucket = (list, bucket)"
| "sort_loop l (t # ts) list bucket =
     (if snd t < l
      then sort_loop l ts (list @ [fst t]) (case bucket of None \<Rightarrow> Some t | Some b \<Rightarrow> Some b)
      else sort_loop l ts list bucket)"

text \<open>
  \<open>#sort\<close>: \<open>tuples.sort((a, b) => a[1] - b[1])\<close> is a stable sort by count, which is
  \<open>sort_key snd\<close>; the result is the most available bucket, and \<open>#sorted\<close> is replaced.
\<close>

definition sort_g :: "gateway \<Rightarrow> (ShardID \<times> LiveCount) option \<times> gateway" where
  "sort_g g =
     (let tuples = sort_key snd (kids g);
          (list, bucket) = sort_loop (limit g) tuples [] None
      in (bucket, g\<lparr>sorted_list := list\<rparr>))"

text \<open>\<open>#introduce(stranger, target)\<close>: one request to the shard \<open>target\<close>.\<close>

definition introduce :: "gateway \<Rightarrow> ShardID \<Rightarrow> ShardID \<Rightarrow> event" where
  "introduce g stranger target =
     ShardFetch target
       \<lparr>rmethod = ''GET'', pathname = NEIGHBOR,
        headers = [(SHARDID, target), (NEIGHBORID, stranger), (GATEWAYID, uid g)],
        body = []\<rparr>"

text \<open>
  \<open>#welcome(nid)\<close>. \<open>fetch\<close> calls it without \<open>await\<close>: the two writes and the issuing of every
  introduction happen before \<open>fetch\<close> goes on, and nothing waits for the answers.
\<close>

definition welcome_g :: "gateway \<Rightarrow> ShardID \<Rightarrow> gateway \<times> event list" where
  "welcome_g g nid =
     (let items = map fst (kids g);
          g' = g\<lparr>sorted_list := nid # sorted_list g, kids := AList.update nid 1 (kids g)\<rparr>
      in (g', if length items > 0
              then concat (map (\<lambda>s. [introduce g nid s, introduce g s nid]) items)
              else []))"

text \<open>
  \<open>#close(req)\<close>: the decrement a shard asks for. It throws (\<open>Inl\<close>) before any write, or
  answers \<open>OK\<close>.
\<close>

definition close :: "validator \<Rightarrow> gateway \<Rightarrow> request \<Rightarrow> (js_error + response) \<times> gateway" where
  "close V g req =
     (case V req None of
        Inl err \<Rightarrow> (Inl err, g)
      | Inr v \<Rightarrow>
          if gid v \<noteq> uid g then (Inl (new_Error ''Mismatch: Gateway ID''), g)
          else (case map_of (kids g) (sid v) of
                  None \<Rightarrow> (Inl (new_Error ''Unknown: Shard ID''), g)
                | Some alive \<Rightarrow>
                    (let alive' = max 0 (alive - 1);
                         g1 = g\<lparr>kids := AList.update (sid v) alive' (kids g)\<rparr>;
                         g2 = (if hget req ISEMPTY = Some ''1''
                               then g1\<lparr>mapping := (mapping g1)(rid v := None)\<rparr>
                               else g1);
                         (bucket, g3) = sort_g g2;
                         g4 = g3\<lparr>current := (case bucket of None \<Rightarrow> None | Some b \<Rightarrow> Some (fst b))\<rparr>
                     in (Inr \<lparr>status = 200, content = Content ''OK'', webSocket = None\<rparr>, g4))))"

text \<open>
  The assignment decision of \<open>fetch\<close> (lines 73 to 92): the shard and its new count, the fields
  as \<open>#sort\<close> or \<open>#welcome\<close> left them, and the introductions issued. \<open>nid\<close> is the identifier
  that \<open>clusterize\<close> returns when it is called (by default \<open>newUniqueId()\<close> of the host).
\<close>

definition assign ::
  "gateway \<Rightarrow> ReqID \<Rightarrow> ShardID \<Rightarrow> gateway \<times> ShardID \<times> LiveCount \<times> event list" where
  "assign g r nid =
     (let s0 = js_or (mapping g r) (js_or (current g) (first (sorted_list g)));
          alive0 = (case s0 of None \<Rightarrow> None | Some s \<Rightarrow> map_of (kids g) s);
          fast = (case (s0, alive0) of
                    (Some s, Some a) \<Rightarrow> if limit g \<ge> a + 1 then Some (s, a + 1) else None
                  | _ \<Rightarrow> None)
      in case fast of
           Some (s, alive) \<Rightarrow> (g, s, alive, [])
         | None \<Rightarrow>
             (case (if length (sorted_list g) > 0 then sort_g g else (None, g)) of
                (Some pair, g1) \<Rightarrow> (g1, fst pair, snd pair + 1, [])
              | (None, g1) \<Rightarrow>
                  (let (g2, ev) = welcome_g g1 nid in (g2, nid, 1, ev))))"

text \<open>
  The rest of the routing branch of \<open>fetch\<close> (lines 94 to 104): the three writes, the three
  headers, and the request forwarded to the chosen shard.
\<close>

definition route_g :: "gateway \<Rightarrow> request \<Rightarrow> ReqID \<Rightarrow> ShardID \<Rightarrow> gateway \<times> event list" where
  "route_g g req r nid =
     (let (g1, s, alive, ev) = assign g r nid;
          g2 = g1\<lparr>current := (if alive < limit g1 then Some s else None)\<rparr>;
          g3 = g2\<lparr>mapping := (mapping g2)(r \<mapsto> s)\<rparr>;
          g4 = g3\<lparr>kids := AList.update s alive (kids g3)\<rparr>;
          req' = hset SHARDID s (hset CLIENTID r (hset GATEWAYID (uid g4) req))
      in (g4, ev @ [ShardFetch s req']))"

text \<open>
  \<open>Gateway.fetch\<close>. \<open>identify\<close> is the application's function; the answer is either the
  gateway's own response (the CLOSE route) or the response of the shard the request was forwarded
  to, which is the last call of the list.
\<close>

definition fetch_g ::
  "validator \<Rightarrow> (request \<Rightarrow> ReqID) \<Rightarrow> gateway \<Rightarrow> request \<Rightarrow> ShardID \<Rightarrow>
   response option \<times> gateway \<times> event list" where
  "fetch_g V identify g req nid =
     (if pathname req = CLOSE
      then (case close V g req of
              (Inl err, g') \<Rightarrow> (Some (abort 400 (Some (message err))), g', [])
            | (Inr res, g') \<Rightarrow> (Some res, g', []))
      else (let (g', ev) = route_g g req (identify req) nid in (None, g', ev)))"

text \<open>A sequence of requests, each with the identifier the host would hand out for a new shard.\<close>

fun run_g ::
  "validator \<Rightarrow> (request \<Rightarrow> ReqID) \<Rightarrow> gateway \<Rightarrow> (request \<times> ShardID) list \<Rightarrow> gateway" where
  "run_g V identify g [] = g"
| "run_g V identify g ((req, nid) # rest) =
     run_g V identify (fst (snd (fetch_g V identify g req nid))) rest"

section \<open>Shard (src/shard.ts)\<close>

text \<open>
  \<open>DOG.State\<close>, the value of a pool entry, and the private fields of the class. \<open>#pool\<close> is a
  \<open>Map\<close> that \<open>#emit\<close> iterates and \<open>#neighbors\<close> a \<open>Set\<close> that \<open>#dispatch\<close> iterates: both
  are lists in insertion order. \<open>sockets\<close> is not a field of the class: it counts the
  \<open>WebSocketPair\<close>s created so far, and the next pair gets that number. The calls to
  \<open>console\<close> are left out.
\<close>

record state =
  gateway :: string
  socket :: nat

record shard =
  uid_s :: string
  pool :: "(ReqID \<times> state) list"
  neighbors :: "ShardID list"
  sockets :: nat

definition new_shard :: "string \<Rightarrow> shard" where
  "new_shard u = \<lparr>uid_s = u, pool = [], neighbors = [], sockets = 0\<rparr>"

text \<open>\<open>Set.add\<close>: a member keeps its place, a new value goes last.\<close>

definition add :: "'a \<Rightarrow> 'a list \<Rightarrow> 'a list" where
  "add x xs = (if x \<in> set xs then xs else xs @ [x])"

text \<open>
  \<open>DOG.Message\<close> is a string or an object; \<open>Obj j\<close> is an object whose \<open>JSON.stringify\<close> is
  \<open>j\<close>.
\<close>

datatype message = Str string | Obj string

fun stringify :: "message \<Rightarrow> string" where
  "stringify (Str m) = m"
| "stringify (Obj j) = j"

text \<open>\<open>#emit(sender, msg, self?)\<close>: one \<open>send\<close> for each pool entry, in the pool's order.\<close>

definition emit :: "shard \<Rightarrow> ReqID \<Rightarrow> message \<Rightarrow> bool \<Rightarrow> event list" where
  "emit s sender msg self =
     concat (map (\<lambda>(r, st). if self \<or> r \<noteq> sender then [Send (socket st) (stringify msg)] else [])
       (pool s))"

text \<open>
  \<open>#dispatch(params)\<close>: nothing for an empty neighbor set, else one request for each neighbor.
  The target header is written when \<open>params.target\<close> is truthy.
\<close>

definition dispatch ::
  "shard \<Rightarrow> string \<Rightarrow> ReqID \<Rightarrow> ReqID option \<Rightarrow> route \<Rightarrow> string \<Rightarrow> event list" where
  "dispatch s gw sender target rt bdy =
     (let list = neighbors s in
      if length list < 1 then []
      else
        (let commons = [(NEIGHBORID, uid_s s), (GATEWAYID, gw), (CLIENTID, sender)];
             commons' = (case js_or target None of
                           None \<Rightarrow> commons
                         | Some t \<Rightarrow> AList.update TARGETID t commons)
         in map (\<lambda>n. ShardFetch n
                   \<lparr>rmethod = ''POST'', pathname = rt,
                    headers = AList.update SHARDID n commons', body = bdy\<rparr>) list))"

text \<open>\<open>#broadcast(gateway, sender, msg, self?)\<close>.\<close>

definition broadcast :: "shard \<Rightarrow> string \<Rightarrow> ReqID \<Rightarrow> message \<Rightarrow> bool \<Rightarrow> event list" where
  "broadcast s gw sender msg self =
     (let bdy = stringify msg
      in emit s sender (Str bdy) self @ dispatch s gw sender None BROADCAST bdy)"

text \<open>\<open>#whisper(gateway, sender, target, msg)\<close>.\<close>

definition whisper :: "shard \<Rightarrow> string \<Rightarrow> ReqID \<Rightarrow> ReqID \<Rightarrow> message \<Rightarrow> event list" where
  "whisper s gw sender target msg =
     (if sender = target then []
      else (let bdy = stringify msg in
            case map_of (pool s) target of
              Some st \<Rightarrow> [Send (socket st) bdy]
            | None \<Rightarrow> dispatch s gw sender (Some target) WHISPER bdy))"

text \<open>
  \<open>#decrement(rid, gid)\<close>: the pool entry is deleted, then the gateway \<open>gid\<close> is sent the CLOSE
  request.
\<close>

definition decrement :: "shard \<Rightarrow> ReqID \<Rightarrow> string \<Rightarrow> shard \<times> event list" where
  "decrement s r g =
     (s\<lparr>pool := AList.delete r (pool s)\<rparr>,
      [GatewayFetch g
         \<lparr>rmethod = ''GET'', pathname = CLOSE,
          headers = [(GATEWAYID, g), (SHARDID, uid_s s), (CLIENTID, r)], body = []\<rparr>])"

text \<open>
  \<open>DOG.Socket\<close>, the object \<open>connect\<close> builds and hands to the hooks: its \<open>uid\<close>, and the
  gateway id and the server socket that its methods are bound to.
\<close>

record dsocket =
  uid_k :: ReqID
  gid_k :: string
  server :: nat

text \<open>
  The application's hooks are code of the embedding application. A hook is given by what it does
  to the library: the methods of its socket that it calls, in order, and whether it throws in
  the end. The methods only read the private fields.
\<close>

datatype call =
    CallSend string
  | CallClose
  | CallBroadcast message bool
  | CallWhisper ReqID message
  | CallEmit message bool

fun perform :: "shard \<Rightarrow> dsocket \<Rightarrow> call \<Rightarrow> event list" where
  "perform s k (CallSend m) = [Send (server k) m]"
| "perform s k CallClose = [SocketClose (server k)]"
| "perform s k (CallBroadcast m self) = broadcast s (gid_k k) (uid_k k) m self"
| "perform s k (CallWhisper t m) = whisper s (gid_k k) (uid_k k) t m"
| "perform s k (CallEmit m self) = emit s (uid_k k) m self"

type_synonym behaviour = "call list \<times> js_error option"

record hooks =
  onopen :: "(dsocket \<Rightarrow> behaviour) option"
  onmessage :: "(dsocket \<Rightarrow> string \<Rightarrow> behaviour) option"
  onclose :: "(dsocket \<Rightarrow> behaviour) option"
  onerror :: "(dsocket \<Rightarrow> behaviour) option"

definition run_hook :: "shard \<Rightarrow> dsocket \<Rightarrow> behaviour \<Rightarrow> event list \<times> js_error option" where
  "run_hook s k b = (concat (map (perform s k) (fst b)), snd b)"

text \<open>
  \<open>String.prototype.trim\<close> on a header value (a byte string): the white space and line
  terminators below 256. The test of \<open>/^[+/0-9A-Za-z]{22}==$/\<close>.
\<close>

definition js_space :: "char \<Rightarrow> bool" where
  "js_space c = (of_char c \<in> {9, 10, 11, 12, 13, 32, 160 :: nat})"

definition trim :: "string \<Rightarrow> string" where
  "trim v = rev (dropWhile js_space (rev (dropWhile js_space v)))"

definition key_char :: "char \<Rightarrow> bool" where
  "key_char c =
     (let n = of_char c :: nat
      in n = 43 \<or> n = 47 \<or> (48 \<le> n \<and> n \<le> 57) \<or> (65 \<le> n \<and> n \<le> 90) \<or> (97 \<le> n \<and> n \<le> 122))"

definition key_ok :: "string \<Rightarrow> bool" where
  "key_ok v = (length v = 24 \<and> list_all key_char (take 22 v) \<and> drop 22 v = ''=='')"

text \<open>
  \<open>connect(req)\<close>. The four protocol checks and the validation return before anything is
  created. After them the pair is created and accepted and the listeners are attached; \<open>onopen\<close>
  runs before the pool entry is written, and an error it throws leaves \<open>connect\<close> (\<open>Inl\<close>)
  before that write.
\<close>

definition connect ::
  "hooks \<Rightarrow> validator \<Rightarrow> shard \<Rightarrow> request \<Rightarrow> (js_error + response) \<times> shard \<times> event list" where
  "connect h V s req =
     (if rmethod req \<noteq> ''GET'' then (Inr (abort 405 None), s, [])
      else if hget req (Header ''upgrade'') \<noteq> Some ''websocket''
      then (Inr (abort 426 None), s, [])
      else if \<not> key_ok (trim (case js_or (hget req (Header ''sec-websocket-key'')) None of
                                 None \<Rightarrow> [] | Some v \<Rightarrow> v))
      then (Inr (abort 400 None), s, [])
      else if hget req (Header ''sec-websocket-version'') \<noteq> Some ''13''
      then (Inr (abort 400 None), s, [])
      else
        (case V req (Some (uid_s s)) of
           Inl err \<Rightarrow> (Inr (abort 400 (Some (message err))), s, [])
         | Inr v \<Rightarrow>
             (let n = sockets s;
                  s1 = s\<lparr>sockets := Suc n\<rparr>;
                  k = \<lparr>uid_k = rid v, gid_k = gid v, server = n\<rparr>;
                  (ev, thrown) = (case onopen h of
                                    None \<Rightarrow> ([], None)
                                  | Some f \<Rightarrow> run_hook s1 k (f k))
              in case thrown of
                   Some err \<Rightarrow> (Inl err, s1, Accept n # ev)
                 | None \<Rightarrow>
                     (Inr \<lparr>status = 101, content = NoContent, webSocket = Some n\<rparr>,
                      s1\<lparr>pool := AList.update (rid v) \<lparr>gateway = gid v, socket = n\<rparr> (pool s1)\<rparr>,
                      Accept n # ev))))"

text \<open>
  The listener \<open>closer\<close> that \<open>connect\<close> attaches to the \<open>close\<close> and to the \<open>error\<close> event of
  the server socket; \<open>k\<close> holds what the closure captured and \<open>ty\<close> is \<open>evt.type\<close>. The
  \<open>finally\<close> block runs whether the hook throws or not, and the hook's error leaves the
  listener after it.
\<close>

definition closer ::
  "hooks \<Rightarrow> shard \<Rightarrow> dsocket \<Rightarrow> string \<Rightarrow> js_error option \<times> shard \<times> event list" where
  "closer h s k ty =
     (let (ev, thrown) =
            (case (if ty = ''error'' then onerror h else None) of
               Some f \<Rightarrow> run_hook s k (f k)
             | None \<Rightarrow> (case onclose h of
                          Some f \<Rightarrow> run_hook s k (f k)
                        | None \<Rightarrow> ([], None)));
          (s', ev') = decrement s (uid_k k) (gid_k k)
      in (thrown, s', ev @ ev' @ [SocketClose (server k)]))"

text \<open>
  The \<open>message\<close> listener, attached when \<open>onmessage\<close> is present. The hook is called without
  \<open>await\<close> and outside any \<open>try\<close>: what it throws leaves the listener.
\<close>

definition listener ::
  "hooks \<Rightarrow> shard \<Rightarrow> dsocket \<Rightarrow> string \<Rightarrow> js_error option \<times> shard \<times> event list" where
  "listener h s k d =
     (case onmessage h of
        None \<Rightarrow> (None, s, [])
      | Some f \<Rightarrow> (let (ev, thrown) = run_hook s k (f k d) in (thrown, s, ev)))"

text \<open>
  The application's \<open>receive(req)\<close> is given by what it does to the library too: it returns a
  response, throws, or calls \<open>this.connect\<close> on a request and goes on with what that call
  returned or threw.
\<close>

datatype program =
    Return response
  | Throw js_error
  | Connect request "js_error + response \<Rightarrow> program"

primrec run_program ::
  "hooks \<Rightarrow> validator \<Rightarrow> program \<Rightarrow> shard \<Rightarrow> (js_error + response) \<times> shard \<times> event list" where
  "run_program h V (Return res) s = (Inr res, s, [])"
| "run_program h V (Throw err) s = (Inl err, s, [])"
| "run_program h V (Connect req next) s =
     (case connect h V s req of
        (out, s1, ev1) \<Rightarrow>
          (case run_program h V (next out) s1 of
             (out2, s2, ev2) \<Rightarrow> (out2, s2, ev1 @ ev2)))"

text \<open>The usual \<open>receive\<close>: \<open>return this.connect(req)\<close>.\<close>

definition upgrade :: "request \<Rightarrow> program" where
  "upgrade req = Connect req (\<lambda>out. case out of Inl err \<Rightarrow> Throw err | Inr res \<Rightarrow> Return res)"

text \<open>The empty \<open>new Response\<close> that acknowledges a control request.\<close>

definition ack :: response where
  "ack = \<lparr>status = 200, content = NoContent, webSocket = None\<rparr>"

text \<open>\<open>err.stack || text\<close>.\<close>

definition stack_or :: "js_error \<Rightarrow> string \<Rightarrow> string" where
  "stack_or err d = (case js_or (stack err) None of None \<Rightarrow> d | Some t \<Rightarrow> t)"

text \<open>
  \<open>Shard.fetch\<close>, on a request whose URL parses. The three control routes return from inside
  their branch; only the last branch, which hands the request to \<open>receive\<close>, has the \<open>finally\<close>
  block with the decrement.
\<close>

definition fetch_s ::
  "hooks \<Rightarrow> validator \<Rightarrow> (request \<Rightarrow> program) \<Rightarrow> shard \<Rightarrow> request \<Rightarrow>
   response \<times> shard \<times> event list" where
  "fetch_s h V receive s req =
     (case V req (Some (uid_s s)) of
        Inl err \<Rightarrow> (abort 400 (Some (message err)), s, [])
      | Inr v \<Rightarrow>
          if pathname req = NEIGHBOR
          then (ack, s\<lparr>neighbors := add (rid v) (neighbors s)\<rparr>, [])
          else if pathname req = BROADCAST
          then (ack, s, emit s (rid v) (Str (body req)) False)
          else if pathname req = WHISPER
          then (case js_or (tid v) None of
                  None \<Rightarrow>
                    (abort 400 (Some (stack_or (new_Error ''Missing: Target ID'')
                                        ''Error parsing whisper message'')), s, [])
                | Some t \<Rightarrow>
                    (case map_of (pool s) t of
                       Some st \<Rightarrow> (ack, s, [Send (socket st) (body req)])
                     | None \<Rightarrow> (ack, s, [])))
          else
            (let (out, s1, ev1) = run_program h V (receive req) s;
                 res = (case out of
                          Inr r \<Rightarrow> r
                        | Inl err \<Rightarrow> abort 400 (Some (stack_or err ''Error in `receive` method'')))
             in if status res \<noteq> 101
                then (let (s2, ev2) = decrement s1 (rid v) (gid v) in (res, s2, ev1 @ ev2))
                else (res, s1, ev1)))"

text \<open>
  What can happen to a shard: a request arrives, a socket fires \<open>close\<close> or \<open>error\<close>, a socket
  delivers a message, or the application calls a method of a socket it holds.
\<close>

datatype action =
    Fetch request
  | Fire dsocket string
  | Deliver dsocket string
  | Use dsocket call

fun step_s ::
  "hooks \<Rightarrow> validator \<Rightarrow> (request \<Rightarrow> program) \<Rightarrow> shard \<Rightarrow> action \<Rightarrow> shard \<times> event list" where
  "step_s h V receive s (Fetch req) = snd (fetch_s h V receive s req)"
| "step_s h V receive s (Fire k ty) = snd (closer h s k ty)"
| "step_s h V receive s (Deliver k d) = snd (listener h s k d)"
| "step_s h V receive s (Use k c) = (s, perform s k c)"

fun run_s ::
  "hooks \<Rightarrow> validator \<Rightarrow> (request \<Rightarrow> program) \<Rightarrow> shard \<Rightarrow> action list \<Rightarrow> shard \<times> event list" where
  "run_s h V receive s [] = (s, [])"
| "run_s h V receive s (a # rest) =
     (case step_s h V receive s a of
        (s1, ev1) \<Rightarrow> (case run_s h V receive s1 rest of (s2, ev2) \<Rightarrow> (s2, ev1 @ ev2)))"

section \<open>Close notices\<close>

text \<open>
  \<open>notice g s r extra\<close> is the CLOSE request that the shard \<open>s\<close> sends to the gateway \<open>g\<close> for
  the client \<open>r\<close>, with further headers \<open>extra\<close> (\<open>#decrement\<close> sends none); \<open>notices\<close> keeps,
  of the calls a method made, the requests to a gateway on the CLOSE route.
\<close>

definition notice :: "string \<Rightarrow> ShardID \<Rightarrow> ReqID \<Rightarrow> (header \<times> string) list \<Rightarrow> request" where
  "notice g s r extra =
     \<lparr>rmethod = ''GET'', pathname = CLOSE,
      headers = [(GATEWAYID, g), (SHARDID, s), (CLIENTID, r)] @ extra, body = []\<rparr>"

fun is_notice :: "event \<Rightarrow> bool" where
  "is_notice (GatewayFetch g req) = (pathname req = CLOSE)"
| "is_notice _ = False"

definition notices :: "event list \<Rightarrow> event list" where
  "notices ev = filter is_notice ev"

section \<open>Concrete runs\<close>

text \<open>
  An application for the concrete runs: \<open>identify\<close> reads the client id from a header, \<open>visit u\<close>
  is a client request, and \<open>lobby\<close> is a gateway that tracks two shards.
\<close>

definition identify_user :: "request \<Rightarrow> ReqID" where
  "identify_user req = (case hget req (Header ''user'') of None \<Rightarrow> ''anonymous'' | Some u \<Rightarrow> u)"

definition visit :: "string \<Rightarrow> request" where
  "visit u =
     \<lparr>rmethod = ''GET'', pathname = Path ''/ws'', headers = [(Header ''user'', u)], body = []\<rparr>"

definition lobby :: gateway where
  "lobby =
     \<lparr>uid = ''G'', limit = 2, mapping = [''c1'' \<mapsto> ''S1''],
      kids = [(''S1'', 1), (''S2'', 1)], sorted_list = [''S1'', ''S2''], current = Some ''S1''\<rparr>"

text \<open>
  A shard \<open>room\<close> that holds the connection of the client c1 on socket 0 and knows the neighbor
  S2; \<open>handshake g s r\<close> is a well-formed upgrade request as the gateway \<open>g\<close> forwards it to the
  shard \<open>s\<close> for the client \<open>r\<close>, and \<open>control rt g s extra b\<close> a request on a control route. The
  hooks \<open>quiet\<close> are all absent; of the hooks \<open>faulty\<close>, \<open>onopen\<close> greets the client and throws,
  and \<open>onmessage\<close> and \<open>onclose\<close> throw. \<open>pong\<close> is an ordinary response and \<open>c1_socket\<close> the
  socket object of the client c1.
\<close>

definition room :: shard where
  "room =
     \<lparr>uid_s = ''S1'', pool = [(''c1'', \<lparr>gateway = ''G'', socket = 0\<rparr>)],
      neighbors = [''S2''], sockets = 1\<rparr>"

definition handshake :: "string \<Rightarrow> string \<Rightarrow> string \<Rightarrow> request" where
  "handshake g s r =
     \<lparr>rmethod = ''GET'', pathname = Path ''/ws'',
      headers = [(Header ''upgrade'', ''websocket''),
                 (Header ''sec-websocket-key'', ''dGhlIHNhbXBsZSBub25jZQ==''),
                 (Header ''sec-websocket-version'', ''13''),
                 (GATEWAYID, g), (CLIENTID, r), (SHARDID, s)],
      body = []\<rparr>"

definition control ::
  "route \<Rightarrow> string \<Rightarrow> ShardID \<Rightarrow> (header \<times> string) list \<Rightarrow> string \<Rightarrow> request" where
  "control rt g s extra b =
     \<lparr>rmethod = ''POST'', pathname = rt,
      headers = [(GATEWAYID, g), (SHARDID, s)] @ extra, body = b\<rparr>"

definition quiet :: hooks where
  "quiet = \<lparr>onopen = None, onmessage = None, onclose = None, onerror = None\<rparr>"

definition faulty :: hooks where
  "faulty =
     \<lparr>onopen = Some (\<lambda>k. ([CallSend ''hello''], Some (Error ''open failed'' (Some ''at onopen'')))),
      onmessage = Some (\<lambda>k d. ([], Some (Error ''message failed'' (Some ''at onmessage'')))),
      onclose = Some (\<lambda>k. ([], Some (Error ''close failed'' None))),
      onerror = None\<rparr>"

definition pong :: response where
  "pong = \<lparr>status = 200, content = Content ''pong'', webSocket = None\<rparr>"

definition c1_socket :: dsocket where
  "c1_socket = \<lparr>uid_k = ''c1'', gid_k = ''G'', server = 0\<rparr>"

section \<open>Properties of the Gateway\<close>

subsection \<open>What \<open>#sort\<close> computes\<close>

lemma sort_loop_eq:
  "sort_loop l ts list bucket =
     (list @ map fst (filter (\<lambda>t. snd t < l) ts),
      case bucket of Some b \<Rightarrow> Some b | None \<Rightarrow> first (filter (\<lambda>t. snd t < l) ts))"
  by (induction ts arbitrary: list bucket) (auto simp: first_def split: option.splits)

lemma sort_g_eq:
  "sort_g g =
     (first (filter (\<lambda>t. snd t < limit g) (sort_key snd (kids g))),
      g\<lparr>sorted_list := map fst (filter (\<lambda>t. snd t < limit g) (sort_key snd (kids g)))\<rparr>)"
  by (simp add: sort_g_def sort_loop_eq Let_def)

lemma first_SomeD: "first xs = Some x \<Longrightarrow> x \<in> set xs"
  by (cases xs) (auto simp: first_def)

lemma set_update_subset: "set (AList.update k v al) \<subseteq> insert (k, v) (set al)"
  by (induction al) auto

lemma sort_g_listed:
  assumes "s \<in> set (sorted_list (snd (sort_g g)))"
  shows "\<exists>c. (s, c) \<in> set (kids g) \<and> c < limit g"
  using assms by (auto simp: sort_g_eq)

subsection \<open>The assignment\<close>

text \<open>
  Whatever the fields hold, \<open>assign\<close> either takes a tracked shard whose count is under the limit
  and leaves \<open>#kids\<close> alone, or creates the shard \<open>nid\<close> at 1.
\<close>

lemma assign_cases:
  assumes "assign g r nid = (g1, s, alive, ev)"
  shows "limit g1 = limit g \<and> uid g1 = uid g \<and>
         ((kids g1 = kids g \<and> (\<exists>c. (s, c) \<in> set (kids g) \<and> c < limit g \<and> alive = c + 1)) \<or>
          (kids g1 = AList.update nid 1 (kids g) \<and> s = nid \<and> alive = 1))"
  using assms
  by (auto simp: assign_def Let_def welcome_g_def sort_g_eq
      split: option.splits if_splits prod.splits dest!: first_SomeD map_of_SomeD)

lemma route_g_kids:
  assumes "(k, c') \<in> set (kids (fst (route_g g req r nid)))"
  shows "(k, c') \<in> set (kids g) \<or> (\<exists>c. (k, c) \<in> set (kids g) \<and> c < limit g \<and> c' = c + 1) \<or>
         (k = nid \<and> c' = 1)"
proof -
  obtain g1 s alive ev where a: "assign g r nid = (g1, s, alive, ev)"
    by (metis prod_cases4)
  have k: "kids (fst (route_g g req r nid)) = AList.update s alive (kids g1)"
    by (simp add: route_g_def a)
  from assms k have "(k, c') = (s, alive) \<or> (k, c') \<in> set (kids g1)"
    using set_update_subset [of s alive "kids g1"] by auto
  with assign_cases [OF a] show ?thesis
    using set_update_subset [of nid 1 "kids g"] by auto
qed

lemma route_g_limit: "limit (fst (route_g g req r nid)) = limit g"
proof -
  obtain g1 s alive ev where a: "assign g r nid = (g1, s, alive, ev)"
    by (metis prod_cases4)
  with assign_cases [OF a] show ?thesis by (simp add: route_g_def)
qed

subsection \<open>The close notice\<close>

lemma close_throws_mismatch:
  "V req None = Inr v \<Longrightarrow> gid v \<noteq> uid g \<Longrightarrow>
   close V g req = (Inl (new_Error ''Mismatch: Gateway ID''), g)"
  by (simp add: close_def)

lemma close_throws_unknown:
  "V req None = Inr v \<Longrightarrow> gid v = uid g \<Longrightarrow> map_of (kids g) (sid v) = None \<Longrightarrow>
   close V g req = (Inl (new_Error ''Unknown: Shard ID''), g)"
  by (simp add: close_def)

lemma close_succeeds:
  assumes "V req None = Inr v" and "gid v = uid g" and "map_of (kids g) (sid v) = Some c"
  shows "fst (close V g req) = Inr \<lparr>status = 200, content = Content ''OK'', webSocket = None\<rparr>"
    and "kids (snd (close V g req)) = AList.update (sid v) (max 0 (c - 1)) (kids g)"
    and "mapping (snd (close V g req)) =
           (if hget req ISEMPTY = Some ''1'' then (mapping g)(rid v := None) else mapping g)"
    and "sorted_list (snd (close V g req)) =
           map fst (filter (\<lambda>t. snd t < limit g)
             (sort_key snd (AList.update (sid v) (max 0 (c - 1)) (kids g))))"
    and "limit (snd (close V g req)) = limit g"
  using assms by (simp_all add: close_def Let_def sort_g_eq)

lemma close_limit: "limit (snd (close V g req)) = limit g"
  by (simp add: close_def Let_def sort_g_eq split: sum.splits option.splits prod.splits)

lemma close_kids:
  assumes "(k, c') \<in> set (kids (snd (close V g req)))"
  shows "(k, c') \<in> set (kids g) \<or> (\<exists>c. (k, c) \<in> set (kids g) \<and> c' = max 0 (c - 1))"
  using assms set_update_subset
  by (fastforce simp: close_def Let_def sort_g_eq
      split: sum.splits option.splits prod.splits if_splits dest!: map_of_SomeD)

lemma validate_notice:
  "validate (notice g s r extra) None =
     Inr \<lparr>rid = r, sid = s, gid = g, tid = map_of extra TARGETID\<rparr>"
  by (simp add: validate_def notice_def hget_def)

subsection \<open>Sequences of requests\<close>

lemma fetch_g_state:
  "fst (snd (fetch_g V identify g req nid)) =
     (if pathname req = CLOSE then snd (close V g req)
      else fst (route_g g req (identify req) nid))"
  by (auto simp: fetch_g_def split: prod.splits sum.splits)

lemma fetch_g_limit: "limit (fst (snd (fetch_g V identify g req nid))) = limit g"
  by (simp add: fetch_g_state close_limit route_g_limit)

lemma fetch_g_bound:
  assumes "1 \<le> limit g" and "\<forall>(k, c) \<in> set (kids g). c \<le> limit g"
  shows "\<forall>(k, c) \<in> set (kids (fst (snd (fetch_g V identify g req nid)))). c \<le> limit g"
proof (cases "pathname req = CLOSE")
  case True
  show ?thesis
  proof clarify
    fix k c assume "(k, c) \<in> set (kids (fst (snd (fetch_g V identify g req nid))))"
    with True have "(k, c) \<in> set (kids (snd (close V g req)))" by (simp add: fetch_g_state)
    from close_kids [OF this] assms show "c \<le> limit g" by fastforce
  qed
next
  case False
  show ?thesis
  proof clarify
    fix k c assume "(k, c) \<in> set (kids (fst (snd (fetch_g V identify g req nid))))"
    with False have "(k, c) \<in> set (kids (fst (route_g g req (identify req) nid)))"
      by (simp add: fetch_g_state)
    from route_g_kids [OF this] assms show "c \<le> limit g" by fastforce
  qed
qed

lemma run_g_bound:
  "1 \<le> limit g \<Longrightarrow> \<forall>(k, c) \<in> set (kids g). c \<le> limit g \<Longrightarrow>
   limit (run_g V identify g reqs) = limit g \<and>
   (\<forall>(k, c) \<in> set (kids (run_g V identify g reqs)). c \<le> limit g)"
proof (induction reqs arbitrary: g)
  case Nil
  then show ?case by simp
next
  case (Cons a reqs)
  obtain req nid where a: "a = (req, nid)" by (cases a)
  let ?g = "fst (snd (fetch_g V identify g req nid))"
  have l: "limit ?g = limit g" by (rule fetch_g_limit)
  have b: "\<forall>(k, c) \<in> set (kids ?g). c \<le> limit ?g"
    using fetch_g_bound [OF Cons.prems] l by simp
  from Cons.IH [of ?g] Cons.prems(1) l b show ?case by (simp add: a)
qed

text \<open>
  The keys of \<open>#kids\<close> stay distinct, as the keys of a \<open>Map\<close> are: the entry \<open>(k, c)\<close> of the
  list is the count \<open>c\<close> that \<open>#kids.get(k)\<close> returns.
\<close>

lemma route_g_distinct:
  assumes "distinct (map fst (kids g))"
  shows "distinct (map fst (kids (fst (route_g g req r nid))))"
proof -
  obtain g1 s alive ev where a: "assign g r nid = (g1, s, alive, ev)"
    by (metis prod_cases4)
  have k: "kids (fst (route_g g req r nid)) = AList.update s alive (kids g1)"
    by (simp add: route_g_def a)
  from assign_cases [OF a] assms have "distinct (map fst (kids g1))"
    by (auto simp: distinct_update)
  then show ?thesis by (simp add: k distinct_update)
qed

lemma close_distinct:
  assumes "distinct (map fst (kids g))"
  shows "distinct (map fst (kids (snd (close V g req))))"
  using assms
  by (simp add: close_def Let_def sort_g_eq distinct_update
      split: sum.splits option.splits prod.splits)

lemma run_g_distinct:
  "distinct (map fst (kids g)) \<Longrightarrow> distinct (map fst (kids (run_g V identify g reqs)))"
proof (induction reqs arbitrary: g)
  case Nil
  then show ?case by simp
next
  case (Cons a reqs)
  obtain req nid where a: "a = (req, nid)" by (cases a)
  have "distinct (map fst (kids (fst (snd (fetch_g V identify g req nid)))))"
    using Cons.prems by (simp add: fetch_g_state route_g_distinct close_distinct)
  from Cons.IH [OF this] show ?case by (simp add: a)
qed

lemma run_g_bound_lookup:
  assumes "1 \<le> limit g" and "distinct (map fst (kids g))"
    and "\<forall>k c. map_of (kids g) k = Some c \<longrightarrow> c \<le> limit g"
  shows "\<forall>k c. map_of (kids (run_g V identify g reqs)) k = Some c \<longrightarrow> c \<le> limit g"
proof -
  have "\<forall>(k, c) \<in> set (kids g). c \<le> limit g"
    using assms(2,3) by auto
  from run_g_bound [OF assms(1) this, of V identify reqs]
  show ?thesis by (auto dest: map_of_SomeD)
qed

subsection \<open>The claims about the Gateway\<close>

text \<open>
  C1. No assignment pushes a recorded live count above the limit. For any fields and any
  request, the shard that \<open>fetch\<close> assigns is either a tracked shard whose count \<open>c\<close> is under
  the limit, recorded at \<open>c + 1\<close> (the fast path and the sorted path), or the shard just created,
  recorded at 1; every entry of \<open>#kids\<close> after the request is an entry from before, such an
  increment, or the new shard at 1. So with a limit of at least 1 and counts within the limit to
  start with, the counts stay within the limit over any sequence of requests (routed requests
  and close notices alike); this is stated for the entries of \<open>#kids\<close> and, the keys being
  distinct, for what \<open>#kids.get\<close> returns.
\<close>

theorem route_never_exceeds_limit:
  "(case assign g r nid of
      (g1, s, alive, ev) \<Rightarrow>
        (\<exists>c. (s, c) \<in> set (kids g) \<and> c < limit g \<and> alive = c + 1) \<or> (s = nid \<and> alive = 1)) \<and>
   (\<forall>(k, c') \<in> set (kids (fst (route_g g req r nid))).
      (k, c') \<in> set (kids g) \<or>
      (\<exists>c. (k, c) \<in> set (kids g) \<and> c < limit g \<and> c' = c + 1) \<or>
      (k = nid \<and> c' = 1)) \<and>
   (1 \<le> limit g \<longrightarrow> (\<forall>(k, c) \<in> set (kids g). c \<le> limit g) \<longrightarrow>
      (\<forall>(k, c) \<in> set (kids (run_g V identify g reqs)). c \<le> limit g)) \<and>
   (1 \<le> limit g \<longrightarrow> distinct (map fst (kids g)) \<longrightarrow>
    (\<forall>k c. map_of (kids g) k = Some c \<longrightarrow> c \<le> limit g) \<longrightarrow>
      distinct (map fst (kids (run_g V identify g reqs))) \<and>
      (\<forall>k c. map_of (kids (run_g V identify g reqs)) k = Some c \<longrightarrow> c \<le> limit g))"
proof (intro conjI)
  obtain g1 s alive ev where a: "assign g r nid = (g1, s, alive, ev)"
    by (metis prod_cases4)
  from assign_cases [OF a]
  show "case assign g r nid of
      (g1, s, alive, ev) \<Rightarrow>
        (\<exists>c. (s, c) \<in> set (kids g) \<and> c < limit g \<and> alive = c + 1) \<or> (s = nid \<and> alive = 1)"
    by (auto simp: a)
next
  show "\<forall>(k, c') \<in> set (kids (fst (route_g g req r nid))).
      (k, c') \<in> set (kids g) \<or>
      (\<exists>c. (k, c) \<in> set (kids g) \<and> c < limit g \<and> c' = c + 1) \<or>
      (k = nid \<and> c' = 1)"
    using route_g_kids by blast
next
  show "1 \<le> limit g \<longrightarrow> (\<forall>(k, c) \<in> set (kids g). c \<le> limit g) \<longrightarrow>
      (\<forall>(k, c) \<in> set (kids (run_g V identify g reqs)). c \<le> limit g)"
    using run_g_bound by blast
next
  show "1 \<le> limit g \<longrightarrow> distinct (map fst (kids g)) \<longrightarrow>
    (\<forall>k c. map_of (kids g) k = Some c \<longrightarrow> c \<le> limit g) \<longrightarrow>
      distinct (map fst (kids (run_g V identify g reqs))) \<and>
      (\<forall>k c. map_of (kids (run_g V identify g reqs)) k = Some c \<longrightarrow> c \<le> limit g)"
    using run_g_distinct [of g V identify reqs] run_g_bound_lookup [of g V identify reqs]
    by blast
qed

text \<open>
  The gateway \<open>lobby\<close> (limit 2, two shards at 1) serves three clients: the two shards fill up
  and a third one is created.
\<close>

theorem route_never_exceeds_limit_witness:
  "1 \<le> limit lobby \<and>
   list_all (\<lambda>(k, c). c \<le> limit lobby) (kids lobby) \<and>
   kids (run_g validate identify_user lobby
     [(visit ''c1'', ''S3''), (visit ''c2'', ''S4''), (visit ''c3'', ''S5''),
      (visit ''c4'', ''S6'')]) = [(''S1'', 2), (''S2'', 2), (''S5'', 2)] \<and>
   list_all (\<lambda>(k, c). c \<le> limit lobby)
     (kids (run_g validate identify_user lobby
       [(visit ''c1'', ''S3''), (visit ''c2'', ''S4''), (visit ''c3'', ''S5''),
        (visit ''c4'', ''S6'')])) \<and>
   distinct (map fst (kids lobby)) \<and>
   distinct (map fst (kids (run_g validate identify_user lobby
       [(visit ''c1'', ''S3''), (visit ''c2'', ''S4''), (visit ''c3'', ''S5''),
        (visit ''c4'', ''S6'')])))"
proof -
  let ?reqs = "[(visit ''c1'', ''S3''), (visit ''c2'', ''S4''), (visit ''c3'', ''S5''),
                (visit ''c4'', ''S6'')]"
  have l: "1 \<le> limit lobby" by (simp add: lobby_def)
  have b: "\<forall>(k, c) \<in> set (kids lobby). c \<le> limit lobby" by (simp add: lobby_def)
  have r: "kids (run_g validate identify_user lobby ?reqs) = [(''S1'', 2), (''S2'', 2), (''S5'', 2)]"
    by (simp add: fetch_g_def route_g_def assign_def lobby_def visit_def identify_user_def
        hget_def hset_def js_or_def first_def welcome_g_def sort_g_def Let_def)
  have "\<forall>(k, c) \<in> set (kids (run_g validate identify_user lobby ?reqs)). c \<le> limit lobby"
    using route_never_exceeds_limit
      [where g = lobby and V = validate and identify = identify_user and reqs = ?reqs] l b
    by blast
  moreover have d: "distinct (map fst (kids lobby))" by (simp add: lobby_def)
  moreover have m: "\<forall>k c. map_of (kids lobby) k = Some c \<longrightarrow> c \<le> limit lobby"
    by (simp add: lobby_def)
  moreover have "distinct (map fst (kids (run_g validate identify_user lobby ?reqs)))"
    using route_never_exceeds_limit
      [where g = lobby and V = validate and identify = identify_user and reqs = ?reqs] l d m
    by blast
  ultimately show ?thesis using l b r by (simp add: list_all_iff)
qed

text \<open>
  C3. \<open>#close\<close> on a notice whose identifiers validate: when the gateway id carried is not the
  receiver's own, it throws the mismatch error; when the ids agree and the shard has no entry in
  \<open>#kids\<close>, it throws the unknown shard error; in both cases every field is as before.
  Otherwise it answers, the shard's count is its old count minus 1 and not below 0, every other
  count is as before, and the sticky mapping loses the client's entry when the ISEMPTY header is
  \<open>1\<close> and is unchanged when it is not. \<open>fetch\<close> turns either error into a 400 response that
  carries its message, with every field as before.
\<close>

theorem close_decrements_or_fails:
  assumes "V req None = Inr v"
  shows "(gid v \<noteq> uid g \<longrightarrow>
            close V g req = (Inl (new_Error ''Mismatch: Gateway ID''), g)) \<and>
         (gid v = uid g \<and> map_of (kids g) (sid v) = None \<longrightarrow>
            close V g req = (Inl (new_Error ''Unknown: Shard ID''), g)) \<and>
         (gid v = uid g \<longrightarrow> (\<forall>c. map_of (kids g) (sid v) = Some c \<longrightarrow>
            (\<exists>res. fst (close V g req) = Inr res) \<and>
            kids (snd (close V g req)) = AList.update (sid v) (max 0 (c - 1)) (kids g) \<and>
            map_of (kids (snd (close V g req))) (sid v) = Some (max 0 (c - 1)) \<and>
            (\<forall>k. k \<noteq> sid v \<longrightarrow> map_of (kids (snd (close V g req))) k = map_of (kids g) k) \<and>
            mapping (snd (close V g req)) =
              (if hget req ISEMPTY = Some ''1'' then (mapping g)(rid v := None) else mapping g))) \<and>
         (pathname req = CLOSE \<and> gid v \<noteq> uid g \<longrightarrow>
            fetch_g V identify g req nid =
              (Some (abort 400 (Some ''Mismatch: Gateway ID'')), g, [])) \<and>
         (pathname req = CLOSE \<and> gid v = uid g \<and> map_of (kids g) (sid v) = None \<longrightarrow>
            fetch_g V identify g req nid =
              (Some (abort 400 (Some ''Unknown: Shard ID'')), g, []))"
proof (intro conjI impI allI)
  assume "gid v \<noteq> uid g"
  with assms show "close V g req = (Inl (new_Error ''Mismatch: Gateway ID''), g)"
    by (rule close_throws_mismatch)
next
  assume "pathname req = CLOSE \<and> gid v \<noteq> uid g"
  with assms show "fetch_g V identify g req nid =
      (Some (abort 400 (Some ''Mismatch: Gateway ID'')), g, [])"
    by (simp add: fetch_g_def close_throws_mismatch new_Error_def)
next
  assume "pathname req = CLOSE \<and> gid v = uid g \<and> map_of (kids g) (sid v) = None"
  with assms show "fetch_g V identify g req nid =
      (Some (abort 400 (Some ''Unknown: Shard ID'')), g, [])"
    by (simp add: fetch_g_def close_throws_unknown new_Error_def)
next
  assume "gid v = uid g \<and> map_of (kids g) (sid v) = None"
  with assms show "close V g req = (Inl (new_Error ''Unknown: Shard ID''), g)"
    by (simp add: close_throws_unknown)
next
  fix c assume h: "gid v = uid g" "map_of (kids g) (sid v) = Some c"
  note s = close_succeeds [where V = V and req = req and g = g, OF assms h]
  show "\<exists>res. fst (close V g req) = Inr res" using s(1) by blast
  show "kids (snd (close V g req)) = AList.update (sid v) (max 0 (c - 1)) (kids g)" by (rule s(2))
  show "map_of (kids (snd (close V g req))) (sid v) = Some (max 0 (c - 1))"
    by (simp add: s(2) update_conv')
  show "mapping (snd (close V g req)) =
              (if hget req ISEMPTY = Some ''1'' then (mapping g)(rid v := None) else mapping g)"
    by (rule s(3))
  fix k assume "k \<noteq> sid v"
  then show "map_of (kids (snd (close V g req))) k = map_of (kids g) k"
    by (simp add: s(2) update_conv')
qed

text \<open>
  On \<open>lobby\<close>: a notice from another gateway, a notice for an untracked shard, and the notice
  of shard S1 for its client with and without the flag.
\<close>

theorem close_decrements_or_fails_witness:
  "fetch_g validate identify_user lobby (notice ''H'' ''S1'' ''c1'' []) ''S3'' =
     (Some (abort 400 (Some ''Mismatch: Gateway ID'')), lobby, []) \<and>
   close validate lobby (notice ''H'' ''S1'' ''c1'' []) = (Inl (new_Error ''Mismatch: Gateway ID''), lobby) \<and>
   close validate lobby (notice ''G'' ''S9'' ''c1'' []) = (Inl (new_Error ''Unknown: Shard ID''), lobby) \<and>
   map_of (kids (snd (close validate lobby (notice ''G'' ''S1'' ''c1'' [(ISEMPTY, ''1'')])))) ''S1'' = Some 0 \<and>
   mapping (snd (close validate lobby (notice ''G'' ''S1'' ''c1'' [(ISEMPTY, ''1'')]))) ''c1'' = None \<and>
   mapping (snd (close validate lobby (notice ''G'' ''S1'' ''c1'' []))) ''c1'' = Some ''S1''"
proof -
  have a: "close validate lobby (notice ''H'' ''S1'' ''c1'' []) = (Inl (new_Error ''Mismatch: Gateway ID''), lobby)"
    using close_decrements_or_fails [where V = validate and g = lobby and req = "notice ''H'' ''S1'' ''c1'' []", OF validate_notice]
    by (simp add: lobby_def)
  have b: "close validate lobby (notice ''G'' ''S9'' ''c1'' []) = (Inl (new_Error ''Unknown: Shard ID''), lobby)"
    using close_decrements_or_fails [where V = validate and g = lobby and req = "notice ''G'' ''S9'' ''c1'' []", OF validate_notice]
    by (simp add: lobby_def)
  have c: "map_of (kids (snd (close validate lobby (notice ''G'' ''S1'' ''c1'' [(ISEMPTY, ''1'')])))) ''S1'' = Some 0 \<and>
   mapping (snd (close validate lobby (notice ''G'' ''S1'' ''c1'' [(ISEMPTY, ''1'')]))) ''c1'' = None"
    using close_decrements_or_fails [where V = validate and g = lobby and req = "notice ''G'' ''S1'' ''c1'' [(ISEMPTY, ''1'')]", OF validate_notice]
    by (simp add: lobby_def notice_def hget_def)
  have d: "mapping (snd (close validate lobby (notice ''G'' ''S1'' ''c1'' []))) ''c1'' = Some ''S1''"
    using close_decrements_or_fails [where V = validate and g = lobby and req = "notice ''G'' ''S1'' ''c1'' []", OF validate_notice]
    by (simp add: lobby_def notice_def hget_def)
  have e: "fetch_g validate identify_user lobby (notice ''H'' ''S1'' ''c1'' []) ''S3'' =
     (Some (abort 400 (Some ''Mismatch: Gateway ID'')), lobby, [])"
    using close_decrements_or_fails [where V = validate and g = lobby
        and req = "notice ''H'' ''S1'' ''c1'' []" and identify = identify_user and nid = "''S3''",
        OF validate_notice]
    by (simp add: lobby_def) (simp add: notice_def)
  from a b c d e show ?thesis by simp
qed

text \<open>
  C10. A successful \<open>#close\<close> with the flag set deletes the sticky mapping of the client without
  looking at what it points to: when the client is mapped to the shard \<open>s1\<close> and the notice comes
  from another tracked shard, the client's entry is deleted all the same.
\<close>

theorem close_forgets_client_unconditionally:
  assumes "V req None = Inr v" and "gid v = uid g" and "map_of (kids g) (sid v) = Some c"
    and "hget req ISEMPTY = Some ''1''" and "mapping g (rid v) = Some s1" and "s1 \<noteq> sid v"
  shows "(\<exists>res. fst (close V g req) = Inr res) \<and> mapping (snd (close V g req)) (rid v) = None"
  using close_succeeds(1,3) [where V = V and req = req and g = g, OF assms(1-3)] assms(4) by simp

text \<open>On \<open>lobby\<close>, where the client c1 is mapped to S1, the notice comes from S2.\<close>

theorem close_forgets_client_unconditionally_witness:
  "mapping lobby ''c1'' = Some ''S1'' \<and> map_of (kids lobby) ''S2'' = Some 1 \<and>
   mapping (snd (close validate lobby (notice ''G'' ''S2'' ''c1'' [(ISEMPTY, ''1'')]))) ''c1'' = None"
proof -
  have m: "mapping lobby ''c1'' = Some ''S1''" and k: "map_of (kids lobby) ''S2'' = Some 1"
    by (simp_all add: lobby_def)
  have "mapping (snd (close validate lobby (notice ''G'' ''S2'' ''c1'' [(ISEMPTY, ''1'')]))) ''c1'' = None"
    using close_forgets_client_unconditionally [where V = validate and g = lobby
        and req = "notice ''G'' ''S2'' ''c1'' [(ISEMPTY, ''1'')]" and c = 1 and ?s1.0 = "''S1''",
        OF validate_notice]
    by (simp add: lobby_def notice_def hget_def)
  with m k show ?thesis by simp
qed

text \<open>
  C5, as stated, fails: \<open>#sorted\<close> is recomputed only by \<open>#sort\<close>, and between two
  recomputations it can list a shard at the limit. With limit 2, the first client creates S1,
  which \<open>#welcome\<close> puts at the head of the list; the second client is accepted on the fast path
  and brings S1 to 2, and S1 is still listed. With limit 1, the shard that \<open>#welcome\<close> puts at the
  head of the list is at the limit as soon as it is created.
\<close>

theorem sorted_list_stale_counterexample:
  "sorted_list (run_g validate identify_user (new_gateway ''G'' 2)
      [(visit ''c1'', ''S1''), (visit ''c2'', ''S2'')]) = [''S1''] \<and>
   map_of (kids (run_g validate identify_user (new_gateway ''G'' 2)
      [(visit ''c1'', ''S1''), (visit ''c2'', ''S2'')])) ''S1'' = Some 2 \<and>
   limit (run_g validate identify_user (new_gateway ''G'' 2)
      [(visit ''c1'', ''S1''), (visit ''c2'', ''S2'')]) = 2 \<and>
   sorted_list (run_g validate identify_user (new_gateway ''G'' 1) [(visit ''c1'', ''S1'')]) = [''S1''] \<and>
   map_of (kids (run_g validate identify_user (new_gateway ''G'' 1) [(visit ''c1'', ''S1'')])) ''S1'' = Some 1 \<and>
   limit (run_g validate identify_user (new_gateway ''G'' 1) [(visit ''c1'', ''S1'')]) = 1"
  by (simp add: fetch_g_def route_g_def assign_def new_gateway_def visit_def identify_user_def
      hget_def hset_def js_or_def first_def welcome_g_def sort_g_def Let_def)

text \<open>
  C5, amended. Right after \<open>#sort\<close> has recomputed the list, every shard it lists is tracked with
  a count under the limit; this is the state in which every successful \<open>#close\<close> leaves the
  gateway.
\<close>

theorem sorted_list_fresh_after_sort:
  "(\<forall>s \<in> set (sorted_list (snd (sort_g g))).
      \<exists>c. (s, c) \<in> set (kids (snd (sort_g g))) \<and> c < limit (snd (sort_g g))) \<and>
   (\<forall>res g'. close V g req = (Inr res, g') \<longrightarrow>
      (\<forall>s \<in> set (sorted_list g'). \<exists>c. (s, c) \<in> set (kids g') \<and> c < limit g'))"
proof (intro conjI allI impI ballI)
  fix s assume "s \<in> set (sorted_list (snd (sort_g g)))"
  from sort_g_listed [OF this] show "\<exists>c. (s, c) \<in> set (kids (snd (sort_g g))) \<and> c < limit (snd (sort_g g))"
    by (simp add: sort_g_eq)
next
  fix res g' s
  assume c: "close V g req = (Inr res, g')" and s: "s \<in> set (sorted_list g')"
  from c obtain v a where v: "V req None = Inr v" "gid v = uid g" "map_of (kids g) (sid v) = Some a"
    by (auto simp: close_def split: sum.splits if_splits option.splits)
  from c have g': "g' = snd (close V g req)" by simp
  from s show "\<exists>c. (s, c) \<in> set (kids g') \<and> c < limit g'"
    unfolding g' close_succeeds(2,4,5) [where V = V and req = req and g = g, OF v] by auto
qed

text \<open>
  On \<open>lobby\<close> with S1 brought to the limit: the notice of S2 recomputes the list, which then
  holds S2 alone.
\<close>

theorem sorted_list_fresh_after_sort_witness:
  "sorted_list (snd (close validate (lobby\<lparr>kids := [(''S1'', 2), (''S2'', 1)]\<rparr>)
      (notice ''G'' ''S2'' ''c2'' []))) = [''S2''] \<and>
   list_all (\<lambda>s. \<exists>c. (s, c) \<in> set (kids (snd (close validate (lobby\<lparr>kids := [(''S1'', 2), (''S2'', 1)]\<rparr>)
      (notice ''G'' ''S2'' ''c2'' [])))) \<and> c < 2)
     (sorted_list (snd (close validate (lobby\<lparr>kids := [(''S1'', 2), (''S2'', 1)]\<rparr>)
      (notice ''G'' ''S2'' ''c2'' []))))"
proof -
  let ?g = "lobby\<lparr>kids := [(''S1'', 2), (''S2'', 1)]\<rparr>"
  let ?req = "notice ''G'' ''S2'' ''c2'' []"
  have c: "close validate ?g ?req = (fst (close validate ?g ?req), snd (close validate ?g ?req))"
    by simp
  have v: "validate ?req None = Inr \<lparr>rid = ''c2'', sid = ''S2'', gid = ''G'', tid = None\<rparr>"
    by (simp add: validate_notice)
  have u: "gid \<lparr>rid = ''c2'', sid = ''S2'', gid = ''G'', tid = None\<rparr> = uid ?g"
    and k: "map_of (kids ?g) (sid \<lparr>rid = ''c2'', sid = ''S2'', gid = ''G'', tid = None\<rparr>) = Some 1"
    by (simp_all add: lobby_def)
  note cs = close_succeeds [where V = validate and g = ?g and req = ?req, OF v u k]
  have ok: "fst (close validate ?g ?req) =
              Inr \<lparr>status = 200, content = Content ''OK'', webSocket = None\<rparr>"
    by (rule cs(1))
  have l: "limit (snd (close validate ?g ?req)) = 2"
    using cs(5) by (simp add: lobby_def)
  have s: "sorted_list (snd (close validate ?g ?req)) = [''S2'']"
    using cs(4) by (simp add: lobby_def)
  have "\<forall>s \<in> set (sorted_list (snd (close validate ?g ?req))).
          \<exists>c. (s, c) \<in> set (kids (snd (close validate ?g ?req))) \<and>
              c < limit (snd (close validate ?g ?req))"
    using sorted_list_fresh_after_sort [where V = validate and g = ?g and req = ?req] c ok
    by metis
  with l s show ?thesis by (simp add: list_all_iff)
qed

section \<open>Properties of the Shard\<close>

subsection \<open>Where close notices come from\<close>

text \<open>
  The socket methods and the hooks built from them send no close notice; \<open>#decrement\<close> sends
  exactly one.
\<close>

lemma notices_empty_iff: "notices ev = [] \<longleftrightarrow> (\<forall>e \<in> set ev. \<not> is_notice e)"
  by (simp add: notices_def filter_empty_conv)

lemma notices_append: "notices (xs @ ys) = notices xs @ notices ys"
  by (simp add: notices_def)

lemma notices_simps:
  "notices [] = []"
  "notices (Send n m # ev) = notices ev"
  "notices (Accept n # ev) = notices ev"
  "notices (SocketClose n # ev) = notices ev"
  "notices (ShardFetch t req # ev) = notices ev"
  by (simp_all add: notices_def)

lemma notices_emit: "notices (emit s sender msg self) = []"
  by (auto simp: notices_empty_iff emit_def split: if_splits)

lemma notices_dispatch: "notices (dispatch s gw sender target rt bdy) = []"
  by (auto simp: notices_empty_iff dispatch_def Let_def)

lemma notices_broadcast: "notices (broadcast s gw sender msg self) = []"
  by (simp add: broadcast_def Let_def notices_append notices_emit notices_dispatch)

lemma notices_whisper: "notices (whisper s gw sender target msg) = []"
  by (simp add: whisper_def Let_def notices_dispatch notices_simps split: option.splits)

lemma notices_perform: "notices (perform s k c) = []"
  by (cases c) (simp_all add: notices_broadcast notices_whisper notices_emit notices_simps)

lemma notices_run_hook: "notices (fst (run_hook s k b)) = []"
  by (simp add: run_hook_def notices_empty_iff) (metis notices_empty_iff notices_perform)

lemma decrement_fields:
  "pool (fst (decrement s r g)) = AList.delete r (pool s)"
  "neighbors (fst (decrement s r g)) = neighbors s"
  "uid_s (fst (decrement s r g)) = uid_s s"
  by (simp_all add: decrement_def)

subsection \<open>What \<open>connect\<close> and \<open>receive\<close> can change\<close>

text \<open>
  \<open>connect\<close>, and so any \<open>receive\<close>, leaves the neighbor set and the shard's id alone, sends no
  close notice and deletes no pool entry.
\<close>

lemma connect_keeps:
  assumes "connect h V s req = (out, s1, ev)"
  shows "neighbors s1 = neighbors s" and "uid_s s1 = uid_s s" and "notices ev = []"
    and "map_of (pool s1) r = None \<Longrightarrow> map_of (pool s) r = None"
proof -
  have n: "\<And>f k s'. notices (fst (run_hook s' k (f k))) = []" by (rule notices_run_hook)
  from assms show "neighbors s1 = neighbors s"
    by (auto simp: connect_def Let_def split: if_splits sum.splits option.splits prod.splits)
  from assms show "uid_s s1 = uid_s s"
    by (auto simp: connect_def Let_def split: if_splits sum.splits option.splits prod.splits)
  from assms have "case V req (Some (uid_s s)) of
      Inl err \<Rightarrow> pool s1 = pool s
    | Inr v \<Rightarrow> pool s1 = pool s \<or>
               pool s1 = AList.update (rid v) \<lparr>gateway = gid v, socket = sockets s\<rparr> (pool s)"
    by (auto simp: connect_def Let_def split: if_splits sum.splits option.splits prod.splits)
  then show "map_of (pool s1) r = None \<Longrightarrow> map_of (pool s) r = None"
    by (auto simp: update_conv' split: sum.splits if_splits)
  from assms show "notices ev = []"
    using n
    by (auto simp: connect_def Let_def notices_simps split: if_splits sum.splits option.splits prod.splits)
       (metis fst_conv)+
qed

lemma run_program_keeps:
  "run_program h V p s = (out, s1, ev) \<Longrightarrow>
   neighbors s1 = neighbors s \<and> uid_s s1 = uid_s s \<and> notices ev = [] \<and>
   (\<forall>r. map_of (pool s1) r = None \<longrightarrow> map_of (pool s) r = None)"
proof (induction p arbitrary: s out s1 ev)
  case (Return res)
  then show ?case by (auto simp: notices_simps)
next
  case (Throw err)
  then show ?case by (auto simp: notices_simps)
next
  case (Connect req nxt)
  obtain o1 t1 e1 where c: "connect h V s req = (o1, t1, e1)" by (metis prod_cases3)
  obtain o2 t2 e2 where r: "run_program h V (nxt o1) t1 = (o2, t2, e2)" by (metis prod_cases3)
  from Connect.prems c r have eq: "out = o2" "s1 = t2" "ev = e1 @ e2" by simp_all
  have ih: "neighbors t2 = neighbors t1 \<and> uid_s t2 = uid_s t1 \<and> notices e2 = [] \<and>
            (\<forall>r. map_of (pool t2) r = None \<longrightarrow> map_of (pool t1) r = None)"
    by (rule Connect.IH [OF _ r]) simp
  from ih connect_keeps [OF c] show ?case
    by (simp add: eq notices_append)
qed

subsection \<open>The listeners\<close>

lemma closer_result:
  "fst (snd (closer h s k ty)) = fst (decrement s (uid_k k) (gid_k k))"
  "notices (snd (snd (closer h s k ty))) = notices (snd (decrement s (uid_k k) (gid_k k)))"
proof -
  obtain ev thrown where e:
    "(case (if ty = ''error'' then onerror h else None) of
               Some f \<Rightarrow> run_hook s k (f k)
             | None \<Rightarrow> (case onclose h of
                          Some f \<Rightarrow> run_hook s k (f k)
                        | None \<Rightarrow> ([], None))) = (ev, thrown)"
    by (metis surj_pair)
  have n: "notices ev = []"
  proof (cases "if ty = ''error'' then onerror h else None")
    case None
    show ?thesis
    proof (cases "onclose h")
      case None
      with e \<open>(if ty = ''error'' then onerror h else None) = None\<close> show ?thesis
        by (simp add: notices_simps)
    next
      case (Some f)
      with e \<open>(if ty = ''error'' then onerror h else None) = None\<close>
      have "ev = fst (run_hook s k (f k))" by simp
      then show ?thesis by (simp add: notices_run_hook)
    qed
  next
    case (Some f)
    with e have "ev = fst (run_hook s k (f k))" by simp
    then show ?thesis by (simp add: notices_run_hook)
  qed
  show "fst (snd (closer h s k ty)) = fst (decrement s (uid_k k) (gid_k k))"
    by (simp add: closer_def e split: prod.splits)
  show "notices (snd (snd (closer h s k ty))) = notices (snd (decrement s (uid_k k) (gid_k k)))"
    by (simp add: closer_def e notices_append n notices_simps split: prod.splits)
qed

lemma listener_state: "fst (snd (listener h s k d)) = s"
  by (simp add: listener_def split: option.splits prod.splits)

lemma listener_notices: "notices (snd (snd (listener h s k d))) = []"
proof (cases "onmessage h")
  case None
  then show ?thesis by (simp add: listener_def notices_simps)
next
  case (Some f)
  then have "snd (snd (listener h s k d)) = fst (run_hook s k (f k d))"
    by (simp add: listener_def split: prod.splits)
  then show ?thesis by (simp add: notices_run_hook)
qed

subsection \<open>The branches of \<open>fetch\<close>\<close>

lemma decrement_eq:
  "decrement s r g =
     (s\<lparr>pool := AList.delete r (pool s)\<rparr>, [GatewayFetch g (notice g (uid_s s) r [])])"
  by (simp add: decrement_def notice_def)

lemma notices_notice: "notices [GatewayFetch g (notice g' s r extra)] = [GatewayFetch g (notice g' s r extra)]"
  by (simp add: notices_def notice_def)

lemma fetch_s_invalid:
  "V req (Some (uid_s s)) = Inl err \<Longrightarrow>
   fetch_s h V receive s req = (abort 400 (Some (message err)), s, [])"
  by (simp add: fetch_s_def)

lemma fetch_s_neighbor:
  "V req (Some (uid_s s)) = Inr v \<Longrightarrow> pathname req = NEIGHBOR \<Longrightarrow>
   fetch_s h V receive s req = (ack, s\<lparr>neighbors := add (rid v) (neighbors s)\<rparr>, [])"
  by (simp add: fetch_s_def)

lemma fetch_s_broadcast:
  "V req (Some (uid_s s)) = Inr v \<Longrightarrow> pathname req = BROADCAST \<Longrightarrow>
   fetch_s h V receive s req = (ack, s, emit s (rid v) (Str (body req)) False)"
  by (simp add: fetch_s_def)

lemma fetch_s_whisper:
  "V req (Some (uid_s s)) = Inr v \<Longrightarrow> pathname req = WHISPER \<Longrightarrow>
   status (fst (fetch_s h V receive s req)) \<noteq> 101 \<and>
   fst (snd (fetch_s h V receive s req)) = s \<and>
   notices (snd (snd (fetch_s h V receive s req))) = []"
  by (simp add: fetch_s_def abort_def ack_def notices_simps split: option.splits)

lemma fetch_s_receive:
  assumes "V req (Some (uid_s s)) = Inr v"
    and "pathname req \<notin> {NEIGHBOR, BROADCAST, WHISPER}"
    and "run_program h V (receive req) s = (out, s1, ev1)"
  shows "fetch_s h V receive s req =
     (let res = (case out of
                   Inr r \<Rightarrow> r
                 | Inl err \<Rightarrow> abort 400 (Some (stack_or err ''Error in `receive` method'')))
      in if status res \<noteq> 101
         then (res, s1\<lparr>pool := AList.delete (rid v) (pool s1)\<rparr>,
               ev1 @ [GatewayFetch (gid v) (notice (gid v) (uid_s s) (rid v) [])])
         else (res, s1, ev1))"
proof -
  have u: "uid_s s1 = uid_s s" using run_program_keeps [OF assms(3)] by simp
  from assms(1,2) show ?thesis
    by (simp add: fetch_s_def assms(3) Let_def decrement_eq u)
qed

subsection \<open>The concrete requests\<close>

lemma validate_handshake:
  "validate (handshake g s r) (Some s) = Inr \<lparr>rid = r, sid = s, gid = g, tid = None\<rparr>"
  by (simp add: validate_def handshake_def hget_def)

lemma handshake_passes:
  "rmethod (handshake g s r) = ''GET''"
  "hget (handshake g s r) (Header ''upgrade'') = Some ''websocket''"
  "key_ok (trim (case js_or (hget (handshake g s r) (Header ''sec-websocket-key'')) None of
                   None \<Rightarrow> [] | Some v \<Rightarrow> v))"
  "hget (handshake g s r) (Header ''sec-websocket-version'') = Some ''13''"
  "pathname (handshake g s r) = Path ''/ws''"
  by (simp_all add: handshake_def hget_def js_or_def trim_def js_space_def key_ok_def key_char_def)

subsection \<open>The claims about the Shard\<close>

text \<open>
  C2, as stated, fails: the three control routes return from inside their branch of \<open>fetch\<close>, before
  the \<open>finally\<close> block with the decrement. On \<open>room\<close>, a relayed broadcast that carries the
  client id c1 is answered with 200: no call is made at all and the pool entry of c1 is still
  there. The introduction of S3 is answered with 200 and changes the neighbor set only, and a
  relayed whisper is answered with 200 after the one \<open>send\<close> to the target's socket.
\<close>

theorem fetch_s_control_route_counterexample:
  "status (fst (fetch_s quiet validate upgrade room
      (control BROADCAST ''G'' ''S1'' [(NEIGHBORID, ''S3''), (CLIENTID, ''c1'')] ''hi''))) = 200 \<and>
   snd (fetch_s quiet validate upgrade room
      (control BROADCAST ''G'' ''S1'' [(NEIGHBORID, ''S3''), (CLIENTID, ''c1'')] ''hi'')) = (room, []) \<and>
   map_of (pool room) ''c1'' = Some \<lparr>gateway = ''G'', socket = 0\<rparr> \<and>
   status (fst (fetch_s quiet validate upgrade room
      (control NEIGHBOR ''G'' ''S1'' [(NEIGHBORID, ''S3'')] []))) = 200 \<and>
   snd (fetch_s quiet validate upgrade room
      (control NEIGHBOR ''G'' ''S1'' [(NEIGHBORID, ''S3'')] [])) =
     (room\<lparr>neighbors := [''S2'', ''S3'']\<rparr>, []) \<and>
   status (fst (fetch_s quiet validate upgrade room
      (control WHISPER ''G'' ''S1'' [(CLIENTID, ''c7''), (TARGETID, ''c1'')] ''psst''))) = 200 \<and>
   snd (fetch_s quiet validate upgrade room
      (control WHISPER ''G'' ''S1'' [(CLIENTID, ''c7''), (TARGETID, ''c1'')] ''psst'')) =
     (room, [Send 0 ''psst''])"
  by (simp add: fetch_s_def validate_def control_def hget_def room_def ack_def emit_def add_def
      js_or_def)

text \<open>
  C2, amended. A request that validates and is on none of the three control routes is handed to
  \<open>receive\<close>. When the response is not an upgrade (status other than 101; this includes the 400
  built from an error that \<open>receive\<close> throws), \<open>fetch\<close> deletes the pool entry of the request's
  client id and sends the close notice for it as its last call; when the response is the upgrade,
  it does neither. A request on a control route, and a request that fails validation, is answered
  with a status other than 101 and with no decrement: the pool is as before and no close notice is
  sent.
\<close>

theorem fetch_s_decrements_after_receive:
  "(V req (Some (uid_s s)) = Inr v \<and> pathname req \<notin> {NEIGHBOR, BROADCAST, WHISPER} \<and>
    run_program h V (receive req) s = (out, s1, ev1) \<longrightarrow>
      (status (fst (fetch_s h V receive s req)) \<noteq> 101 \<longrightarrow>
         snd (fetch_s h V receive s req) =
           (s1\<lparr>pool := AList.delete (rid v) (pool s1)\<rparr>,
            ev1 @ [GatewayFetch (gid v) (notice (gid v) (uid_s s) (rid v) [])]) \<and>
         map_of (pool (fst (snd (fetch_s h V receive s req)))) (rid v) = None) \<and>
      (status (fst (fetch_s h V receive s req)) = 101 \<longrightarrow>
         snd (fetch_s h V receive s req) = (s1, ev1) \<and>
         notices (snd (snd (fetch_s h V receive s req))) = [])) \<and>
   (pathname req \<in> {NEIGHBOR, BROADCAST, WHISPER} \<or> (\<exists>err. V req (Some (uid_s s)) = Inl err) \<longrightarrow>
      status (fst (fetch_s h V receive s req)) \<noteq> 101 \<and>
      pool (fst (snd (fetch_s h V receive s req))) = pool s \<and>
      notices (snd (snd (fetch_s h V receive s req))) = [])"
proof (intro conjI impI)
  assume a: "V req (Some (uid_s s)) = Inr v \<and> pathname req \<notin> {NEIGHBOR, BROADCAST, WHISPER} \<and>
    run_program h V (receive req) s = (out, s1, ev1)"
  then have v: "V req (Some (uid_s s)) = Inr v"
    and p: "pathname req \<notin> {NEIGHBOR, BROADCAST, WHISPER}"
    and r: "run_program h V (receive req) s = (out, s1, ev1)" by simp_all
  note f = fetch_s_receive [where V = V and receive = receive, OF v p r]
  {
    assume "status (fst (fetch_s h V receive s req)) \<noteq> 101"
    then show "snd (fetch_s h V receive s req) =
           (s1\<lparr>pool := AList.delete (rid v) (pool s1)\<rparr>,
            ev1 @ [GatewayFetch (gid v) (notice (gid v) (uid_s s) (rid v) [])])"
      unfolding f by (simp add: Let_def split: if_splits)
    then show "map_of (pool (fst (snd (fetch_s h V receive s req)))) (rid v) = None"
      by (simp add: delete_conv')
  }
  {
    assume "status (fst (fetch_s h V receive s req)) = 101"
    then show "snd (fetch_s h V receive s req) = (s1, ev1)"
      unfolding f by (simp add: Let_def split: if_splits)
    then show "notices (snd (snd (fetch_s h V receive s req))) = []"
      using run_program_keeps [OF r] by simp
  }
next
  assume c: "pathname req \<in> {NEIGHBOR, BROADCAST, WHISPER} \<or> (\<exists>err. V req (Some (uid_s s)) = Inl err)"
  show "status (fst (fetch_s h V receive s req)) \<noteq> 101"
    and "pool (fst (snd (fetch_s h V receive s req))) = pool s"
    and "notices (snd (snd (fetch_s h V receive s req))) = []"
  proof -
    have "status (fst (fetch_s h V receive s req)) \<noteq> 101 \<and>
          pool (fst (snd (fetch_s h V receive s req))) = pool s \<and>
          notices (snd (snd (fetch_s h V receive s req))) = []"
    proof (cases "V req (Some (uid_s s))")
      case (Inl err)
      then show ?thesis by (simp add: fetch_s_invalid abort_def notices_simps)
    next
      case (Inr v')
      with c have "pathname req = NEIGHBOR \<or> pathname req = BROADCAST \<or> pathname req = WHISPER"
        by auto
      then show ?thesis
      proof (elim disjE)
        assume "pathname req = NEIGHBOR"
        with Inr show ?thesis by (simp add: fetch_s_neighbor ack_def notices_simps)
      next
        assume "pathname req = BROADCAST"
        with Inr show ?thesis by (simp add: fetch_s_broadcast ack_def notices_emit)
      next
        assume "pathname req = WHISPER"
        with Inr show ?thesis using fetch_s_whisper [where V = V and receive = receive] by simp
      qed
    qed
    then show "status (fst (fetch_s h V receive s req)) \<noteq> 101"
      and "pool (fst (snd (fetch_s h V receive s req))) = pool s"
      and "notices (snd (snd (fetch_s h V receive s req))) = []" by simp_all
  qed
qed

text \<open>
  On \<open>room\<close>: a request of the client c1 that the application answers with \<open>pong\<close> releases
  c1; the upgrade of a second client c2 registers it and sends no notice; the introduction of S3
  sends none either.
\<close>

theorem fetch_s_decrements_after_receive_witness:
  "snd (fetch_s quiet validate (\<lambda>req. Return pong) room (handshake ''G'' ''S1'' ''c1'')) =
     (room\<lparr>pool := []\<rparr>, [GatewayFetch ''G'' (notice ''G'' ''S1'' ''c1'' [])]) \<and>
   snd (fetch_s quiet validate upgrade room (handshake ''G'' ''S1'' ''c2'')) =
     (room\<lparr>sockets := 2, pool := [(''c1'', \<lparr>gateway = ''G'', socket = 0\<rparr>),
                                     (''c2'', \<lparr>gateway = ''G'', socket = 1\<rparr>)]\<rparr>, [Accept 1]) \<and>
   notices (snd (snd (fetch_s quiet validate upgrade room
      (control NEIGHBOR ''G'' ''S1'' [(NEIGHBORID, ''S3'')] [])))) = []"
proof -
  let ?c1 = "handshake ''G'' ''S1'' ''c1''" and ?c2 = "handshake ''G'' ''S1'' ''c2''"
  let ?s2 = "room\<lparr>sockets := 2, pool := [(''c1'', \<lparr>gateway = ''G'', socket = 0\<rparr>),
                                          (''c2'', \<lparr>gateway = ''G'', socket = 1\<rparr>)]\<rparr>"
  let ?up = "\<lparr>status = 101, content = NoContent, webSocket = Some 1\<rparr>"
  have u: "uid_s room = ''S1''" by (simp add: room_def)
  have p: "pathname ?c1 \<notin> {NEIGHBOR, BROADCAST, WHISPER}"
    "pathname ?c2 \<notin> {NEIGHBOR, BROADCAST, WHISPER}"
    by (simp_all add: handshake_def)
  have v: "validate ?c1 (Some (uid_s room)) = Inr \<lparr>rid = ''c1'', sid = ''S1'', gid = ''G'', tid = None\<rparr>"
    "validate ?c2 (Some (uid_s room)) = Inr \<lparr>rid = ''c2'', sid = ''S1'', gid = ''G'', tid = None\<rparr>"
    by (simp_all add: u validate_handshake)
  have r1: "run_program quiet validate (Return pong) room = (Inr pong, room, [])" by simp
  have c: "connect quiet validate room ?c2 = (Inr ?up, ?s2, [Accept 1])"
    by (simp add: connect_def v)
       (simp add: handshake_def hget_def js_or_def trim_def js_space_def key_ok_def key_char_def
          quiet_def room_def)
  have r2: "run_program quiet validate (upgrade ?c2) room = (Inr ?up, ?s2, [Accept 1])"
    by (simp add: upgrade_def c)
  have st1: "status (fst (fetch_s quiet validate (\<lambda>req. Return pong) room ?c1)) \<noteq> 101"
    using fetch_s_receive [where V = validate and receive = "\<lambda>req. Return pong", OF v(1) p(1) r1]
    by (simp add: pong_def)
  have st2: "status (fst (fetch_s quiet validate upgrade room ?c2)) = 101"
    using fetch_s_receive [where V = validate and receive = upgrade, OF v(2) p(2) r2] by simp
  have "snd (fetch_s quiet validate (\<lambda>req. Return pong) room ?c1) =
     (room\<lparr>pool := AList.delete ''c1'' (pool room)\<rparr>,
      [] @ [GatewayFetch ''G'' (notice ''G'' (uid_s room) ''c1'' [])])"
    using fetch_s_decrements_after_receive
      [where V = validate and h = quiet and receive = "\<lambda>req. Return pong" and s = room
         and req = ?c1 and v = "\<lparr>rid = ''c1'', sid = ''S1'', gid = ''G'', tid = None\<rparr>"
         and out = "Inr pong" and ?s1.0 = room and ?ev1.0 = "[]"]
      v(1) p(1) r1 st1
    by simp
  then have a: "snd (fetch_s quiet validate (\<lambda>req. Return pong) room ?c1) =
     (room\<lparr>pool := []\<rparr>, [GatewayFetch ''G'' (notice ''G'' ''S1'' ''c1'' [])])"
    by (simp add: room_def)
  have b: "snd (fetch_s quiet validate upgrade room ?c2) = (?s2, [Accept 1])"
    using fetch_s_decrements_after_receive
      [where V = validate and h = quiet and receive = upgrade and s = room
         and req = ?c2 and v = "\<lparr>rid = ''c2'', sid = ''S1'', gid = ''G'', tid = None\<rparr>"
         and out = "Inr ?up" and ?s1.0 = ?s2 and ?ev1.0 = "[Accept 1]"]
      v(2) p(2) r2 st2
    by simp
  have n: "notices (snd (snd (fetch_s quiet validate upgrade room
      (control NEIGHBOR ''G'' ''S1'' [(NEIGHBORID, ''S3'')] [])))) = []"
    using fetch_s_decrements_after_receive
      [where V = validate and h = quiet and receive = upgrade and s = room
         and req = "control NEIGHBOR ''G'' ''S1'' [(NEIGHBORID, ''S3'')] []"]
    by (simp add: control_def)
  from a b n show ?thesis by simp
qed

text \<open>
  C4, as stated, fails: the same listener is attached to the \<open>close\<close> and to the \<open>error\<close>
  event, and nothing remembers that it ran. A new shard upgrades the client c1, which registers
  one connection; its socket then fires \<open>error\<close> and after it \<open>close\<close>, and the gateway is sent
  two close notices for the one connection.
\<close>

theorem closer_fires_twice_counterexample:
  "fst (run_s quiet validate upgrade (new_shard ''S1'') [Fetch (handshake ''G'' ''S1'' ''c1'')]) =
     \<lparr>uid_s = ''S1'', pool = [(''c1'', \<lparr>gateway = ''G'', socket = 0\<rparr>)], neighbors = [], sockets = 1\<rparr> \<and>
   snd (run_s quiet validate upgrade (new_shard ''S1'')
      [Fetch (handshake ''G'' ''S1'' ''c1''), Fire c1_socket ''error'', Fire c1_socket ''close'']) =
     [Accept 0,
      GatewayFetch ''G'' (notice ''G'' ''S1'' ''c1'' []), SocketClose 0,
      GatewayFetch ''G'' (notice ''G'' ''S1'' ''c1'' []), SocketClose 0]"
  by (simp add: fetch_s_def validate_handshake new_shard_def upgrade_def connect_def
      closer_def decrement_eq c1_socket_def quiet_def)
     (simp add: handshake_def hget_def js_or_def trim_def js_space_def key_ok_def key_char_def)

text \<open>Whatever happens to a shard, a step that deletes a pool entry sends exactly one notice.\<close>

lemma step_s_removal:
  assumes "map_of (pool s) r \<noteq> None"
    and "map_of (pool (fst (step_s h V receive s a))) r = None"
  shows "length (notices (snd (step_s h V receive s a))) = 1"
proof (cases a)
  case (Fetch req)
  show ?thesis
  proof (cases "V req (Some (uid_s s))")
    case (Inl err)
    with assms Fetch show ?thesis by (simp add: fetch_s_invalid)
  next
    case (Inr v)
    show ?thesis
    proof (cases "pathname req \<in> {NEIGHBOR, BROADCAST, WHISPER}")
      case True
      then have "pool (fst (snd (fetch_s h V receive s req))) = pool s"
        using Inr fetch_s_whisper [where V = V and receive = receive and h = h and s = s and req = req]
        by (auto simp: fetch_s_neighbor fetch_s_broadcast)
      with assms Fetch show ?thesis by simp
    next
      case False
      obtain out s1 ev1 where r: "run_program h V (receive req) s = (out, s1, ev1)"
        by (metis prod_cases3)
      note f = fetch_s_receive [where V = V and receive = receive, OF Inr False r]
      note k = run_program_keeps [OF r]
      show ?thesis
      proof (cases "status (fst (fetch_s h V receive s req)) = 101")
        case True
        then have "fst (snd (fetch_s h V receive s req)) = s1"
          unfolding f by (simp add: Let_def split: if_splits)
        with assms Fetch k show ?thesis by simp
      next
        case False
        then have "snd (snd (fetch_s h V receive s req)) =
            ev1 @ [GatewayFetch (gid v) (notice (gid v) (uid_s s) (rid v) [])]"
          unfolding f by (simp add: Let_def split: if_splits)
        with k Fetch show ?thesis by (simp add: notices_append notices_notice)
      qed
    qed
  qed
next
  case (Fire k ty)
  then show ?thesis by (simp add: closer_result decrement_eq notices_notice)
next
  case (Deliver k d)
  with assms show ?thesis by (simp add: listener_state)
next
  case (Use k c)
  with assms show ?thesis by simp
qed

text \<open>
  C4, amended. Every run of the listener, for a \<open>close\<close> or an \<open>error\<close> event and whether the
  hook throws or not, deletes the pool entry of its client and sends exactly one close notice for
  it: one notice for each event that is delivered, not one for each connection. And every step
  of a shard that removes a pool entry sends exactly one close notice.
\<close>

theorem closer_notifies_once_per_event:
  "notices (snd (snd (closer h s k ty))) =
     [GatewayFetch (gid_k k) (notice (gid_k k) (uid_s s) (uid_k k) [])] \<and>
   pool (fst (snd (closer h s k ty))) = AList.delete (uid_k k) (pool s) \<and>
   map_of (pool (fst (snd (closer h s k ty)))) (uid_k k) = None \<and>
   (map_of (pool s) r \<noteq> None \<and> map_of (pool (fst (step_s h V receive s a))) r = None \<longrightarrow>
      length (notices (snd (step_s h V receive s a))) = 1)"
  using step_s_removal [of s r h V receive a]
  by (simp add: closer_result decrement_eq notices_notice delete_conv')

text \<open>
  On \<open>room\<close> with the hooks \<open>faulty\<close>: the socket of c1 fires \<open>close\<close>, the \<open>onclose\<close> hook
  throws, and the entry of c1 is removed with one notice all the same.
\<close>

theorem closer_notifies_once_per_event_witness:
  "map_of (pool room) ''c1'' \<noteq> None \<and>
   map_of (pool (fst (step_s faulty validate upgrade room (Fire c1_socket ''close'')))) ''c1'' = None \<and>
   length (notices (snd (step_s faulty validate upgrade room (Fire c1_socket ''close'')))) = 1 \<and>
   fst (closer faulty room c1_socket ''close'') = Some (Error ''close failed'' None)"
proof -
  have a: "map_of (pool room) ''c1'' \<noteq> None" by (simp add: room_def)
  have b: "map_of (pool (fst (step_s faulty validate upgrade room (Fire c1_socket ''close'')))) ''c1'' = None"
    by (simp add: closer_result decrement_eq c1_socket_def room_def)
  have c: "fst (closer faulty room c1_socket ''close'') = Some (Error ''close failed'' None)"
    by (simp add: closer_def faulty_def run_hook_def decrement_eq)
  from a b c closer_notifies_once_per_event
    [where s = room and r = "''c1''" and h = faulty and V = validate and receive = upgrade
       and a = "Fire c1_socket ''close''"]
  show ?thesis by blast
qed

text \<open>\<open>#dispatch\<close> sends one request to each neighbor, in the order of the set.\<close>

lemma dispatch_eq:
  "dispatch s gw sender target rt bdy =
     map (\<lambda>n. ShardFetch n
            \<lparr>rmethod = ''POST'', pathname = rt,
             headers = AList.update SHARDID n
               (case js_or target None of
                  None \<Rightarrow> [(NEIGHBORID, uid_s s), (GATEWAYID, gw), (CLIENTID, sender)]
                | Some t \<Rightarrow> [(NEIGHBORID, uid_s s), (GATEWAYID, gw), (CLIENTID, sender), (TARGETID, t)]),
             body = bdy\<rparr>) (neighbors s)"
  by (cases "neighbors s") (auto simp: dispatch_def Let_def split: option.splits)

text \<open>
  C6. \<open>#whisper\<close> makes no call when the sender is the target. Otherwise, when the pool has an
  entry for the target, its one call is the \<open>send\<close> of the message on that entry's socket.
  Otherwise its calls are one WHISPER request to each member of the neighbor set, in order, each
  with the message as body and the member as recipient, and nothing else; with an empty neighbor
  set it makes no call.
\<close>

theorem whisper_delivery:
  "(sender = target \<longrightarrow> whisper s gw sender target msg = []) \<and>
   (sender \<noteq> target \<longrightarrow>
      (\<forall>st. map_of (pool s) target = Some st \<longrightarrow>
         whisper s gw sender target msg = [Send (socket st) (stringify msg)])) \<and>
   (sender \<noteq> target \<and> map_of (pool s) target = None \<longrightarrow>
      (\<exists>mk. whisper s gw sender target msg = map (\<lambda>n. ShardFetch n (mk n)) (neighbors s) \<and>
            (\<forall>n. pathname (mk n) = WHISPER \<and> body (mk n) = stringify msg \<and>
                 hget (mk n) SHARDID = Some n \<and> hget (mk n) CLIENTID = Some sender \<and>
                 hget (mk n) TARGETID = (if target = [] then None else Some target))) \<and>
      (neighbors s = [] \<longrightarrow> whisper s gw sender target msg = []))"
proof (intro conjI impI allI)
  assume "sender = target"
  then show "whisper s gw sender target msg = []" by (simp add: whisper_def)
next
  fix st assume "sender \<noteq> target" "map_of (pool s) target = Some st"
  then show "whisper s gw sender target msg = [Send (socket st) (stringify msg)]"
    by (simp add: whisper_def)
next
  assume a: "sender \<noteq> target \<and> map_of (pool s) target = None"
  let ?mk = "\<lambda>n. \<lparr>rmethod = ''POST'', pathname = WHISPER,
             headers = AList.update SHARDID n
               (case js_or (Some target) None of
                  None \<Rightarrow> [(NEIGHBORID, uid_s s), (GATEWAYID, gw), (CLIENTID, sender)]
                | Some t \<Rightarrow> [(NEIGHBORID, uid_s s), (GATEWAYID, gw), (CLIENTID, sender), (TARGETID, t)]),
             body = stringify msg\<rparr>"
  have w: "whisper s gw sender target msg = map (\<lambda>n. ShardFetch n (?mk n)) (neighbors s)"
    using a by (simp add: whisper_def dispatch_eq)
  have m: "\<forall>n. pathname (?mk n) = WHISPER \<and> body (?mk n) = stringify msg \<and>
                 hget (?mk n) SHARDID = Some n \<and> hget (?mk n) CLIENTID = Some sender \<and>
                 hget (?mk n) TARGETID = (if target = [] then None else Some target)"
    by (simp add: hget_def js_or_def)
  show "\<exists>mk. whisper s gw sender target msg = map (\<lambda>n. ShardFetch n (mk n)) (neighbors s) \<and>
            (\<forall>n. pathname (mk n) = WHISPER \<and> body (mk n) = stringify msg \<and>
                 hget (mk n) SHARDID = Some n \<and> hget (mk n) CLIENTID = Some sender \<and>
                 hget (mk n) TARGETID = (if target = [] then None else Some target))"
  proof (rule exI [where x = ?mk], rule conjI)
    show "whisper s gw sender target msg = map (\<lambda>n. ShardFetch n (?mk n)) (neighbors s)"
      by (rule w)
    show "\<forall>n. pathname (?mk n) = WHISPER \<and> body (?mk n) = stringify msg \<and>
                 hget (?mk n) SHARDID = Some n \<and> hget (?mk n) CLIENTID = Some sender \<and>
                 hget (?mk n) TARGETID = (if target = [] then None else Some target)"
      by (rule m)
  qed
  assume "neighbors s = []"
  with w show "whisper s gw sender target msg = []" by simp
qed

text \<open>
  On \<open>room\<close>: c1 whispers to itself; c2 whispers to the local client c1; c1 whispers to the
  absent client c9, with the neighbor S2 and with no neighbor.
\<close>

theorem whisper_delivery_witness:
  "whisper room ''G'' ''c1'' ''c1'' (Str ''psst'') = [] \<and>
   whisper room ''G'' ''c2'' ''c1'' (Str ''psst'') = [Send 0 ''psst''] \<and>
   whisper room ''G'' ''c1'' ''c9'' (Str ''psst'') =
     [ShardFetch ''S2'' \<lparr>rmethod = ''POST'', pathname = WHISPER,
        headers = [(NEIGHBORID, ''S1''), (GATEWAYID, ''G''), (CLIENTID, ''c1''),
                   (TARGETID, ''c9''), (SHARDID, ''S2'')],
        body = ''psst''\<rparr>] \<and>
   whisper (room\<lparr>neighbors := []\<rparr>) ''G'' ''c1'' ''c9'' (Str ''psst'') = []"
proof -
  have a: "whisper room ''G'' ''c1'' ''c1'' (Str ''psst'') = []"
    using whisper_delivery [of "''c1''" "''c1''" room "''G''" "Str ''psst''"] by simp
  have b: "whisper room ''G'' ''c2'' ''c1'' (Str ''psst'') = [Send 0 ''psst'']"
    using whisper_delivery [of "''c2''" "''c1''" room "''G''" "Str ''psst''"]
    by (simp add: room_def)
  have d: "whisper (room\<lparr>neighbors := []\<rparr>) ''G'' ''c1'' ''c9'' (Str ''psst'') = []"
    using whisper_delivery [of "''c1''" "''c9''" "room\<lparr>neighbors := []\<rparr>" "''G''" "Str ''psst''"]
    by (simp add: room_def)
  obtain mk where w: "whisper room ''G'' ''c1'' ''c9'' (Str ''psst'') =
        map (\<lambda>n. ShardFetch n (mk n)) (neighbors room)"
    using whisper_delivery [of "''c1''" "''c9''" room "''G''" "Str ''psst''"]
    by (auto simp: room_def)
  have c: "whisper room ''G'' ''c1'' ''c9'' (Str ''psst'') =
     [ShardFetch ''S2'' \<lparr>rmethod = ''POST'', pathname = WHISPER,
        headers = [(NEIGHBORID, ''S1''), (GATEWAYID, ''G''), (CLIENTID, ''c1''),
                   (TARGETID, ''c9''), (SHARDID, ''S2'')],
        body = ''psst''\<rparr>]"
    by (simp add: whisper_def dispatch_def room_def js_or_def)
  from a b c d show ?thesis by simp
qed

text \<open>Only the NEIGHBOR branch of \<open>fetch\<close> writes the neighbor set, and it only adds.\<close>

lemma set_add: "set (add x xs) = insert x (set xs)"
  by (auto simp: add_def)

lemma fetch_s_neighbors:
  "set (neighbors s) \<subseteq> set (neighbors (fst (snd (fetch_s h V receive s req))))"
proof (cases "V req (Some (uid_s s))")
  case (Inl err)
  then show ?thesis by (simp add: fetch_s_invalid)
next
  case (Inr v)
  show ?thesis
  proof (cases "pathname req \<in> {NEIGHBOR, BROADCAST, WHISPER}")
    case True
    then show ?thesis
      using Inr fetch_s_whisper [where V = V and receive = receive and h = h and s = s and req = req]
      by (auto simp: fetch_s_neighbor fetch_s_broadcast set_add)
  next
    case False
    obtain out s1 ev1 where r: "run_program h V (receive req) s = (out, s1, ev1)"
      by (metis prod_cases3)
    from run_program_keeps [OF r] show ?thesis
      unfolding fetch_s_receive [where V = V and receive = receive, OF Inr False r]
      by (simp add: Let_def)
  qed
qed

lemma step_s_neighbors:
  "set (neighbors s) \<subseteq> set (neighbors (fst (step_s h V receive s a)))"
proof (cases a)
  case (Fetch req)
  then show ?thesis using fetch_s_neighbors [of s h V receive req] by simp
next
  case (Fire k ty)
  then show ?thesis by (simp add: closer_result decrement_fields)
next
  case (Deliver k d)
  then show ?thesis by (simp add: listener_state)
next
  case (Use k c)
  then show ?thesis by simp
qed

lemma run_s_Cons:
  "fst (run_s h V receive s (a # acts)) = fst (run_s h V receive (fst (step_s h V receive s a)) acts)"
  "snd (run_s h V receive s (a # acts)) =
     snd (step_s h V receive s a) @ snd (run_s h V receive (fst (step_s h V receive s a)) acts)"
  by (simp_all split: prod.splits)

lemma run_s_neighbors:
  "set (neighbors s) \<subseteq> set (neighbors (fst (run_s h V receive s acts)))"
proof (induction acts arbitrary: s)
  case Nil
  then show ?case by simp
next
  case (Cons a acts)
  have "set (neighbors s) \<subseteq> set (neighbors (fst (step_s h V receive s a)))"
    by (rule step_s_neighbors)
  also have "\<dots> \<subseteq> set (neighbors (fst (run_s h V receive (fst (step_s h V receive s a)) acts)))"
    by (rule Cons.IH)
  finally show ?case by (simp only: run_s_Cons)
qed

text \<open>
  C7. An introduction of a neighbor that is already in the neighbor set leaves the set, and its
  size, as they are; an introduction makes the set the old one with the neighbor added; and over
  any sequence of requests, socket events, messages and socket method calls every member of the
  neighbor set stays a member.
\<close>

theorem neighbors_only_grow:
  "(V req (Some (uid_s s)) = Inr v \<and> pathname req = NEIGHBOR \<and> rid v \<in> set (neighbors s) \<longrightarrow>
      neighbors (fst (snd (fetch_s h V receive s req))) = neighbors s \<and>
      length (neighbors (fst (snd (fetch_s h V receive s req)))) = length (neighbors s)) \<and>
   (V req (Some (uid_s s)) = Inr v \<and> pathname req = NEIGHBOR \<longrightarrow>
      set (neighbors (fst (snd (fetch_s h V receive s req)))) = insert (rid v) (set (neighbors s))) \<and>
   set (neighbors s) \<subseteq> set (neighbors (fst (run_s h V receive s acts)))"
  by (auto simp: fetch_s_neighbor add_def run_s_neighbors [THEN subsetD])

text \<open>
  On \<open>room\<close>, which knows S2: S3 is introduced twice, a socket closes, and S2 is introduced
  again.
\<close>

theorem neighbors_only_grow_witness:
  "neighbors (fst (run_s faulty validate upgrade room
      [Fetch (control NEIGHBOR ''G'' ''S1'' [(NEIGHBORID, ''S3'')] []),
       Fetch (control NEIGHBOR ''G'' ''S1'' [(NEIGHBORID, ''S3'')] []),
       Fire c1_socket ''close'',
       Fetch (control NEIGHBOR ''G'' ''S1'' [(NEIGHBORID, ''S2'')] [])])) = [''S2'', ''S3''] \<and>
   neighbors (fst (snd (fetch_s faulty validate upgrade room
      (control NEIGHBOR ''G'' ''S1'' [(NEIGHBORID, ''S2'')] [])))) = neighbors room \<and>
   ''S2'' \<in> set (neighbors (fst (run_s faulty validate upgrade room
      [Fetch (control NEIGHBOR ''G'' ''S1'' [(NEIGHBORID, ''S3'')] []),
       Fetch (control NEIGHBOR ''G'' ''S1'' [(NEIGHBORID, ''S3'')] []),
       Fire c1_socket ''close'',
       Fetch (control NEIGHBOR ''G'' ''S1'' [(NEIGHBORID, ''S2'')] [])])))"
proof -
  let ?acts = "[Fetch (control NEIGHBOR ''G'' ''S1'' [(NEIGHBORID, ''S3'')] []),
       Fetch (control NEIGHBOR ''G'' ''S1'' [(NEIGHBORID, ''S3'')] []),
       Fire c1_socket ''close'',
       Fetch (control NEIGHBOR ''G'' ''S1'' [(NEIGHBORID, ''S2'')] [])]"
  let ?req = "control NEIGHBOR ''G'' ''S1'' [(NEIGHBORID, ''S2'')] []"
  have v: "validate ?req (Some (uid_s room)) = Inr \<lparr>rid = ''S2'', sid = ''S1'', gid = ''G'', tid = None\<rparr>"
    by (simp add: validate_def control_def hget_def room_def)
  have p: "pathname ?req = NEIGHBOR" by (simp add: control_def)
  have m: "rid \<lparr>rid = ''S2'', sid = ''S1'', gid = ''G'', tid = None\<rparr> \<in> set (neighbors room)"
    by (simp add: room_def)
  note t = neighbors_only_grow [where V = validate and h = faulty and receive = upgrade
      and s = room and req = ?req and acts = ?acts
      and v = "\<lparr>rid = ''S2'', sid = ''S1'', gid = ''G'', tid = None\<rparr>"]
  have a: "neighbors (fst (snd (fetch_s faulty validate upgrade room ?req))) = neighbors room"
    using t v p m by blast
  have b: "''S2'' \<in> set (neighbors (fst (run_s faulty validate upgrade room ?acts)))"
    using t m by auto
  have c: "neighbors (fst (run_s faulty validate upgrade room ?acts)) = [''S2'', ''S3'']"
    by (simp add: fetch_s_def validate_def control_def hget_def room_def add_def closer_def
        decrement_eq faulty_def run_hook_def c1_socket_def split: prod.splits)
  from a b c show ?thesis by simp
qed

text \<open>
  C8, as stated, fails for \<open>onmessage\<close>: the hook runs in the socket's \<open>message\<close> listener,
  outside any request and outside any \<open>try\<close>. With the hooks \<open>faulty\<close>, a message on the socket
  of c1 makes the error leave the listener: there is no response to carry it, no call is made,
  and the pool entry of c1 is still there.
\<close>

theorem onmessage_error_escapes_counterexample:
  "listener faulty room c1_socket ''hi'' =
     (Some (Error ''message failed'' (Some ''at onmessage'')), room, []) \<and>
   map_of (pool room) ''c1'' = Some \<lparr>gateway = ''G'', socket = 0\<rparr>"
  by (simp add: listener_def faulty_def run_hook_def room_def)

text \<open>\<open>connect\<close> throws only what \<open>onopen\<close> throws.\<close>

lemma stack_or_nonempty: "d \<noteq> [] \<Longrightarrow> stack_or err d \<noteq> []"
  by (auto simp: stack_or_def js_or_def split: option.splits if_splits)

lemma connect_throws:
  assumes "connect h V s req = (Inl err, s1, ev)"
  shows "\<exists>f k. onopen h = Some f \<and> snd (f k) = Some err"
  using assms
  by (auto simp: connect_def Let_def run_hook_def split: if_splits sum.splits option.splits prod.splits)

text \<open>
  C8, amended. When \<open>receive\<close> throws, \<open>fetch\<close> answers 400 with the error's stack (or the fixed
  text when it has none) as a non-empty body, deletes the pool entry of the request's client id
  and sends the close notice. An error of \<open>onopen\<close> is such an error when \<open>receive\<close> returns
  what \<open>this.connect\<close> returns: \<open>connect\<close> throws it on, and it throws nothing else. An error
  of \<open>onmessage\<close> leaves the message listener as it is thrown, and the listener changes no
  field and sends no close notice.
\<close>

theorem receive_error_becomes_400:
  "(V req (Some (uid_s s)) = Inr v \<and> pathname req \<notin> {NEIGHBOR, BROADCAST, WHISPER} \<and>
    run_program h V (receive req) s = (Inl err, s1, ev1) \<longrightarrow>
      fetch_s h V receive s req =
        (abort 400 (Some (stack_or err ''Error in `receive` method'')),
         s1\<lparr>pool := AList.delete (rid v) (pool s1)\<rparr>,
         ev1 @ [GatewayFetch (gid v) (notice (gid v) (uid_s s) (rid v) [])]) \<and>
      stack_or err ''Error in `receive` method'' \<noteq> []) \<and>
   (connect h V s req = (Inl err, s1, ev1) \<longrightarrow>
      run_program h V (upgrade req) s = (Inl err, s1, ev1) \<and>
      (\<exists>f k. onopen h = Some f \<and> snd (f k) = Some err)) \<and>
   (onmessage h = Some f \<and> snd (f k d) = Some err \<longrightarrow> fst (listener h s k d) = Some err) \<and>
   fst (snd (listener h s k d)) = s \<and>
   notices (snd (snd (listener h s k d))) = []"
proof (intro conjI impI)
  assume a: "V req (Some (uid_s s)) = Inr v \<and> pathname req \<notin> {NEIGHBOR, BROADCAST, WHISPER} \<and>
    run_program h V (receive req) s = (Inl err, s1, ev1)"
  then have v: "V req (Some (uid_s s)) = Inr v"
    and p: "pathname req \<notin> {NEIGHBOR, BROADCAST, WHISPER}"
    and r: "run_program h V (receive req) s = (Inl err, s1, ev1)" by simp_all
  show "fetch_s h V receive s req =
        (abort 400 (Some (stack_or err ''Error in `receive` method'')),
         s1\<lparr>pool := AList.delete (rid v) (pool s1)\<rparr>,
         ev1 @ [GatewayFetch (gid v) (notice (gid v) (uid_s s) (rid v) [])])"
    unfolding fetch_s_receive [where V = V and receive = receive, OF v p r]
    by (simp add: abort_def)
  show "stack_or err ''Error in `receive` method'' \<noteq> []"
    by (rule stack_or_nonempty) simp
next
  assume c: "connect h V s req = (Inl err, s1, ev1)"
  then show "run_program h V (upgrade req) s = (Inl err, s1, ev1)"
    by (simp add: upgrade_def)
  from c show "\<exists>f k. onopen h = Some f \<and> snd (f k) = Some err"
    by (rule connect_throws)
next
  assume "onmessage h = Some f \<and> snd (f k d) = Some err"
  then show "fst (listener h s k d) = Some err"
    by (simp add: listener_def run_hook_def)
next
  show "fst (snd (listener h s k d)) = s" by (rule listener_state)
  show "notices (snd (snd (listener h s k d))) = []" by (rule listener_notices)
qed

text \<open>
  On \<open>room\<close> with the hooks \<open>faulty\<close>: the upgrade of c2 passes every check, \<open>onopen\<close> greets
  and throws, and the client gets 400 with the stack while the gateway gets the notice.
\<close>

theorem receive_error_becomes_400_witness:
  "fst (listener faulty room c1_socket ''hi'') =
     Some (Error ''message failed'' (Some ''at onmessage'')) \<and>
   connect faulty validate room (handshake ''G'' ''S1'' ''c2'') =
     (Inl (Error ''open failed'' (Some ''at onopen'')), room\<lparr>sockets := 2\<rparr>,
      [Accept 1, Send 1 ''hello'']) \<and>
   fetch_s faulty validate upgrade room (handshake ''G'' ''S1'' ''c2'') =
     (abort 400 (Some ''at onopen''), room\<lparr>sockets := 2\<rparr>,
      [Accept 1, Send 1 ''hello'', GatewayFetch ''G'' (notice ''G'' ''S1'' ''c2'' [])])"
proof -
  let ?req = "handshake ''G'' ''S1'' ''c2''"
  let ?err = "Error ''open failed'' (Some ''at onopen'')"
  have u: "uid_s room = ''S1''" by (simp add: room_def)
  have v: "validate ?req (Some (uid_s room)) = Inr \<lparr>rid = ''c2'', sid = ''S1'', gid = ''G'', tid = None\<rparr>"
    by (simp add: u validate_handshake)
  have p: "pathname ?req \<notin> {NEIGHBOR, BROADCAST, WHISPER}" by (simp add: handshake_passes)
  have c: "connect faulty validate room ?req =
     (Inl ?err, room\<lparr>sockets := 2\<rparr>, [Accept 1, Send 1 ''hello''])"
    by (simp add: connect_def handshake_passes v Let_def)
       (simp add: faulty_def run_hook_def room_def)
  note t = receive_error_becomes_400 [where V = validate and h = faulty and receive = upgrade
      and s = room and req = ?req and err = ?err and ?s1.0 = "room\<lparr>sockets := 2\<rparr>"
      and ?ev1.0 = "[Accept 1, Send 1 ''hello'']"
      and v = "\<lparr>rid = ''c2'', sid = ''S1'', gid = ''G'', tid = None\<rparr>"]
  from t c have r: "run_program faulty validate (upgrade ?req) room =
     (Inl ?err, room\<lparr>sockets := 2\<rparr>, [Accept 1, Send 1 ''hello''])" by blast
  from t v p r have "fetch_s faulty validate upgrade room ?req =
        (abort 400 (Some (stack_or ?err ''Error in `receive` method'')),
         room\<lparr>sockets := 2, pool := AList.delete ''c2'' (pool (room\<lparr>sockets := 2\<rparr>))\<rparr>,
         [Accept 1, Send 1 ''hello''] @ [GatewayFetch ''G'' (notice ''G'' (uid_s room) ''c2'' [])])"
    by simp
  then have "fetch_s faulty validate upgrade room ?req =
     (abort 400 (Some ''at onopen''), room\<lparr>sockets := 2\<rparr>,
      [Accept 1, Send 1 ''hello'', GatewayFetch ''G'' (notice ''G'' ''S1'' ''c2'' [])])"
    by (simp add: stack_or_def js_or_def room_def)
  moreover have "fst (listener faulty room c1_socket ''hi'') =
     Some (Error ''message failed'' (Some ''at onmessage''))"
    using receive_error_becomes_400 [where h = faulty and s = room and k = c1_socket and d = "''hi''"
        and f = "\<lambda>k d. ([], Some (Error ''message failed'' (Some ''at onmessage'')))"
        and err = "Error ''message failed'' (Some ''at onmessage'')"]
    by (simp add: faulty_def)
  ultimately show ?thesis using c by simp
qed

text \<open>An absent and an empty key header are the same to the key test.\<close>

lemma js_or_None: "(case js_or a None of None \<Rightarrow> [] | Some v \<Rightarrow> v) = (case a of None \<Rightarrow> [] | Some v \<Rightarrow> v)"
  by (simp add: js_or_def split: option.splits)

text \<open>
  C9. \<open>connect\<close> answers the first check that fails: 405 for a method other than GET, 426
  without the \<open>websocket\<close> upgrade header, 400 for a key that is not 22 base64 characters and
  \<open>==\<close> after trimming, 400 for a version other than 13, and 400 with the validation error's
  message when the identifiers do not validate. Each time the shard is exactly as before (same
  pool, no socket pair counted) and no call is made; as this holds for any hooks, also hooks that
  always throw, no hook runs. In general, whenever \<open>connect\<close> returns a response that is not the
  upgrade, nothing has changed and the status is 400, 405 or 426.
\<close>

theorem connect_rejects_before_any_change:
  "(rmethod req \<noteq> ''GET'' \<longrightarrow> connect h V s req = (Inr (abort 405 None), s, [])) \<and>
   (rmethod req = ''GET'' \<and> hget req (Header ''upgrade'') \<noteq> Some ''websocket'' \<longrightarrow>
      connect h V s req = (Inr (abort 426 None), s, [])) \<and>
   (rmethod req = ''GET'' \<and> hget req (Header ''upgrade'') = Some ''websocket'' \<and>
    \<not> key_ok (trim (case hget req (Header ''sec-websocket-key'') of None \<Rightarrow> [] | Some k \<Rightarrow> k)) \<longrightarrow>
      connect h V s req = (Inr (abort 400 None), s, [])) \<and>
   (rmethod req = ''GET'' \<and> hget req (Header ''upgrade'') = Some ''websocket'' \<and>
    key_ok (trim (case hget req (Header ''sec-websocket-key'') of None \<Rightarrow> [] | Some k \<Rightarrow> k)) \<and>
    hget req (Header ''sec-websocket-version'') \<noteq> Some ''13'' \<longrightarrow>
      connect h V s req = (Inr (abort 400 None), s, [])) \<and>
   (rmethod req = ''GET'' \<and> hget req (Header ''upgrade'') = Some ''websocket'' \<and>
    key_ok (trim (case hget req (Header ''sec-websocket-key'') of None \<Rightarrow> [] | Some k \<Rightarrow> k)) \<and>
    hget req (Header ''sec-websocket-version'') = Some ''13'' \<and>
    V req (Some (uid_s s)) = Inl err \<longrightarrow>
      connect h V s req = (Inr (abort 400 (Some (message err))), s, [])) \<and>
   (\<forall>res s1 ev. connect h V s req = (Inr res, s1, ev) \<and> status res \<noteq> 101 \<longrightarrow>
      s1 = s \<and> ev = [] \<and> status res \<in> {400, 405, 426})"
  by (auto simp: connect_def js_or_None abort_def Let_def
      split: sum.splits option.splits prod.splits if_splits)

text \<open>
  On \<open>room\<close> with the hooks \<open>faulty\<close>: a POST, a wrong upgrade header, a short key, version 8,
  and a request addressed to another shard.
\<close>

theorem connect_rejects_before_any_change_witness:
  "connect faulty validate room ((handshake ''G'' ''S1'' ''c2'')\<lparr>rmethod := ''POST''\<rparr>) =
     (Inr (abort 405 None), room, []) \<and>
   connect faulty validate room (hset (Header ''upgrade'') ''h2c'' (handshake ''G'' ''S1'' ''c2'')) =
     (Inr (abort 426 None), room, []) \<and>
   connect faulty validate room
       (hset (Header ''sec-websocket-key'') ''c2hvcnQ='' (handshake ''G'' ''S1'' ''c2'')) =
     (Inr (abort 400 None), room, []) \<and>
   connect faulty validate room
       (hset (Header ''sec-websocket-version'') ''8'' (handshake ''G'' ''S1'' ''c2'')) =
     (Inr (abort 400 None), room, []) \<and>
   connect faulty validate room (handshake ''G'' ''S9'' ''c2'') =
     (Inr (abort 400 (Some ''Mismatch: Shard ID'')), room, [])"
proof -
  note t = connect_rejects_before_any_change [where h = faulty and V = validate and s = room]
  have a: "connect faulty validate room ((handshake ''G'' ''S1'' ''c2'')\<lparr>rmethod := ''POST''\<rparr>) =
     (Inr (abort 405 None), room, [])"
    using t [where req = "(handshake ''G'' ''S1'' ''c2'')\<lparr>rmethod := ''POST''\<rparr>"] by simp
  have b: "connect faulty validate room (hset (Header ''upgrade'') ''h2c'' (handshake ''G'' ''S1'' ''c2'')) =
     (Inr (abort 426 None), room, [])"
    using t [where req = "hset (Header ''upgrade'') ''h2c'' (handshake ''G'' ''S1'' ''c2'')"]
    by (simp add: hset_def handshake_def hget_def)
  have c: "connect faulty validate room
       (hset (Header ''sec-websocket-key'') ''c2hvcnQ='' (handshake ''G'' ''S1'' ''c2'')) =
     (Inr (abort 400 None), room, [])"
    using t [where req = "hset (Header ''sec-websocket-key'') ''c2hvcnQ='' (handshake ''G'' ''S1'' ''c2'')"]
    by (simp add: hset_def handshake_def hget_def trim_def js_space_def key_ok_def)
  have d: "connect faulty validate room
       (hset (Header ''sec-websocket-version'') ''8'' (handshake ''G'' ''S1'' ''c2'')) =
     (Inr (abort 400 None), room, [])"
    using t [where req = "hset (Header ''sec-websocket-version'') ''8'' (handshake ''G'' ''S1'' ''c2'')"]
    by (simp add: hset_def handshake_def hget_def trim_def js_space_def key_ok_def key_char_def)
  have v: "validate (handshake ''G'' ''S9'' ''c2'') (Some (uid_s room)) =
             Inl (new_Error ''Mismatch: Shard ID'')"
    by (simp add: validate_def handshake_def hget_def room_def)
  have e: "connect faulty validate room (handshake ''G'' ''S9'' ''c2'') =
     (Inr (abort 400 (Some ''Mismatch: Shard ID'')), room, [])"
    using t [where req = "handshake ''G'' ''S9'' ''c2''" and err = "new_Error ''Mismatch: Shard ID''"] v
      handshake_passes [of "''G''" "''S9''" "''c2''"]
    by (simp add: js_or_None new_Error_def)
  from a b c d e show ?thesis by simp
qed

end
